theory Spec2Isabelle
  imports Complex_Main "HOL-Library.Multiset"
begin

section \<open>Data model\<close>

text \<open>
  Python floats are modelled as \<^typ>\<open>real\<close>: exact arithmetic, no rounding, no NaN.
  A timestamp is the number of seconds since 0001-01-01T00:00:00, so that the day
  number is \<open>ts div 86400\<close>, Python's \<open>weekday()\<close> (Monday is 0) is the day number
  modulo 7 and \<open>time()\<close> is \<open>ts mod 86400\<close>, in seconds since midnight.
\<close>

type_synonym datetime = nat

definition weekday :: "datetime \<Rightarrow> nat" where
  "weekday current_dt = (current_dt div 86400) mod 7"

definition time_of :: "datetime \<Rightarrow> nat" where
  "time_of current_dt = current_dt mod 86400"

definition hour :: "datetime \<Rightarrow> nat" where
  "hour current_dt = time_of current_dt div 3600"

text \<open>The Python exceptions that the modelled code can raise. \<open>MissingValues\<close> is not
  one of them: it marks frames that do not share their index, where pandas fills in
  missing values and goes on; the model has no missing values and stops there.\<close>

datatype error = ZeroDivisionError | ValueError | KeyError | IndexError | AttributeError
  | NameError | MissingValues

subsection \<open>bricks.Schedule\<close>

record Schedule =
  arrival_time :: nat
  departure_time :: nat
  list_days :: "nat list"

text \<open>The dataclass constructor followed by \<open>__post_init__\<close>: a missing list of days
  becomes Monday to Friday.\<close>

definition Schedule_init :: "nat \<Rightarrow> nat \<Rightarrow> nat list option \<Rightarrow> Schedule" where
  "Schedule_init arrival departure days =
     \<lparr>arrival_time = arrival, departure_time = departure,
      list_days = (case days of None \<Rightarrow> [0..<5] | Some ds \<Rightarrow> ds)\<rparr>"

definition default_schedule :: Schedule where
  "default_schedule = Schedule_init (8 * 3600) (17 * 3600) None"

definition is_plugged :: "Schedule \<Rightarrow> datetime \<Rightarrow> bool" where
  "is_plugged s current_dt =
     (if weekday current_dt \<in> set (list_days s)
      then arrival_time s \<le> time_of current_dt \<and> time_of current_dt \<le> departure_time s
      else False)"

definition get_plugged_profile :: "Schedule \<Rightarrow> datetime list \<Rightarrow> bool list" where
  "get_plugged_profile s timesteps = map (is_plugged s) timesteps"

subsection \<open>bricks.Battery\<close>

record Battery =
  current_soc :: real
  target_soc :: real
  battery_size :: real
  schedule :: Schedule
  battery_losses :: real
  initial_soc :: real

text \<open>The dataclass constructor followed by \<open>__post_init__\<close>. Only values above 1 are
  replaced; the \<open>initial_soc\<close> argument is overwritten.\<close>

definition Battery_init ::
  "real \<Rightarrow> real \<Rightarrow> real \<Rightarrow> Schedule \<Rightarrow> real \<Rightarrow> real \<Rightarrow> Battery" where
  "Battery_init cur tgt size_kwh sched losses init =
     (let b = \<lparr>current_soc = cur, target_soc = tgt, battery_size = size_kwh,
                schedule = sched, battery_losses = losses, initial_soc = init\<rparr>;
          b = (if target_soc b > 1 then b\<lparr>target_soc := 1\<rparr> else b);
          b = (if current_soc b > 1 then b\<lparr>current_soc := 1\<rparr> else b)
      in b\<lparr>initial_soc := current_soc b\<rparr>)"

definition current_energy_stored :: "Battery \<Rightarrow> real" where
  "current_energy_stored b = battery_size b * current_soc b"

definition target_energy_stored :: "Battery \<Rightarrow> real" where
  "target_energy_stored b = battery_size b * target_soc b"

definition requested_energy :: "Battery \<Rightarrow> real" where
  "requested_energy b = target_energy_stored b - current_energy_stored b"

definition target_charge_achieved :: "Battery \<Rightarrow> bool" where
  "target_charge_achieved b = (current_soc b = target_soc b)"

definition calculate_losses :: "Battery \<Rightarrow> Battery" where
  "calculate_losses b = b\<lparr>current_soc := current_soc b - battery_losses b\<rparr>"

text \<open>Every mutating method returns the value it returns in Python together with the
  updated battery. The float division by \<open>battery_size\<close> raises when the size is zero.\<close>

definition battery_is_charging :: "Battery \<Rightarrow> real \<Rightarrow> error + (real \<times> Battery)" where
  "battery_is_charging b energy_input =
     (let temp_charge_amount = current_soc b * battery_size b + energy_input
      in if temp_charge_amount \<le> battery_size b * target_soc b
         then (if battery_size b = 0 then Inl ZeroDivisionError
               else Inr (energy_input,
                         b\<lparr>current_soc := temp_charge_amount / battery_size b\<rparr>))
         else Inr (target_energy_stored b - current_energy_stored b,
                   b\<lparr>current_soc := target_soc b\<rparr>))"

definition reset_current_soc :: "Battery \<Rightarrow> Battery" where
  "reset_current_soc b = b\<lparr>current_soc := initial_soc b\<rparr>"

definition battery_is_plugged ::
  "Battery \<Rightarrow> datetime \<Rightarrow> real \<Rightarrow> error + (real \<times> Battery)" where
  "battery_is_plugged b current_dt energy_input =
     (if is_plugged (schedule b) current_dt
      then (if \<not> target_charge_achieved b then battery_is_charging b energy_input
            else Inr (0, b))
      else Inr (0, reset_current_soc b))"

definition run_model :: "Battery \<Rightarrow> datetime \<Rightarrow> real \<Rightarrow> error + (real \<times> Battery)" where
  "run_model b current_dt energy_input =
     battery_is_plugged (calculate_losses b) current_dt energy_input"

subsection \<open>bricks.TimeserieRecorder\<close>

text \<open>
  The recorded dataframe has one row per label of \<open>index\<close> and one column per name
  of \<open>header\<close> after the first; every cell starts at 0. A cell is addressed by column
  name and row label.
\<close>

record TimeserieRecorder =
  index :: "datetime list"
  header :: "string list"
  recorded_data :: "string \<Rightarrow> datetime \<Rightarrow> int"

definition get_column_names :: "TimeserieRecorder \<Rightarrow> string list" where
  "get_column_names r = tl (header r)"

definition TimeserieRecorder_init :: "datetime list \<Rightarrow> string list \<Rightarrow> TimeserieRecorder" where
  "TimeserieRecorder_init idx hdr =
     \<lparr>index = idx, header = hdr, recorded_data = (\<lambda>c t. 0)\<rparr>"

text \<open>numpy's \<open>astype('int64')\<close> on a float is the C conversion: it drops the
  fractional part (rounds toward zero). Outside the range of 64-bit integers the
  conversion yields the minimum value on x86-64.\<close>

definition astype_int64 :: "real \<Rightarrow> int" where
  "astype_int64 v =
     (let z = (if 0 \<le> v then \<lfloor>v\<rfloor> else \<lceil>v\<rceil>)
      in if - (2 ^ 63) \<le> z \<and> z < 2 ^ 63 then z else - (2 ^ 63))"

fun loc_assign ::
  "(datetime \<Rightarrow> int) \<Rightarrow> datetime list \<Rightarrow> int list \<Rightarrow> (datetime \<Rightarrow> int)" where
  "loc_assign col (t # ts) (v # vs) = loc_assign (col(t := v)) ts vs"
| "loc_assign col _ _ = col"

text \<open>\<open>recorded_data.loc[index, col_name] = values.astype('int64')\<close>: a label that is
  not a row of the dataframe raises KeyError, a value array of another length than the
  labels raises ValueError.\<close>

definition record_batch_data ::
  "TimeserieRecorder \<Rightarrow> datetime list \<Rightarrow> real list \<Rightarrow> string \<Rightarrow> error + TimeserieRecorder" where
  "record_batch_data r idx vals col_name =
     (if \<not> list_all (\<lambda>t. t \<in> set (index r)) idx then Inl KeyError
      else if length vals \<noteq> length idx then Inl ValueError
      else Inr (r\<lparr>recorded_data :=
                  (recorded_data r)(col_name :=
                     loc_assign (recorded_data r col_name) idx (map astype_int64 vals))\<rparr>))"

subsection \<open>vehicles.EV\<close>

record EV =
  name :: string
  battery :: Battery
  data_recorder :: TimeserieRecorder

text \<open>The loop of \<open>EV.charging_profile\<close>: one \<open>run_model\<close> per timestep, in order,
  each on the battery the step before left. It yields the three arrays
  (state of charge, energy input, plugged flag) and the final battery. Reading
  \<open>charger_max_energy_outputs[index]\<close> past the end of the array raises IndexError.\<close>

fun charging_loop ::
  "Battery \<Rightarrow> datetime list \<Rightarrow> real list \<Rightarrow>
     error + (real list \<times> real list \<times> real list \<times> Battery)" where
  "charging_loop b [] outs = Inr ([], [], [], b)"
| "charging_loop b (t # ts) [] = Inl IndexError"
| "charging_loop b (t # ts) (e # es) =
     (case run_model b t e of
        Inl err \<Rightarrow> Inl err
      | Inr (current_charger_output, b') \<Rightarrow>
          (case charging_loop b' ts es of
             Inl err \<Rightarrow> Inl err
           | Inr (soc_arr, energy_input_arr, plugged_flag_arr, b'') \<Rightarrow>
               Inr (current_soc b' # soc_arr,
                    current_charger_output # energy_input_arr,
                    (if is_plugged (schedule b') t then 1 else 0) # plugged_flag_arr,
                    b'')))"

definition EV_charging_profile ::
  "EV \<Rightarrow> datetime list \<Rightarrow> real list \<Rightarrow> error + (real list \<times> EV)" where
  "EV_charging_profile ev timesteps charger_max_energy_outputs =
     (case charging_loop (battery ev) timesteps charger_max_energy_outputs of
        Inl err \<Rightarrow> Inl err
      | Inr (soc_arr, energy_input_arr, plugged_flag_arr, b') \<Rightarrow>
          (case record_batch_data (data_recorder ev) timesteps soc_arr ''SOC'' of
             Inl err \<Rightarrow> Inl err
           | Inr r1 \<Rightarrow>
          (case record_batch_data r1 timesteps energy_input_arr ''ENERGY_INPUT'' of
             Inl err \<Rightarrow> Inl err
           | Inr r2 \<Rightarrow>
          (case record_batch_data r2 timesteps plugged_flag_arr ''PLUGGED'' of
             Inl err \<Rightarrow> Inl err
           | Inr r3 \<Rightarrow>
               Inr (energy_input_arr, ev\<lparr>battery := b', data_recorder := r3\<rparr>)))))"

subsection \<open>controller: the daily optimizer\<close>

text \<open>
  A site dataframe is a list of rows in the order of the frame. A row carries its index
  label and the columns of \<open>OptimizerSchema\<close>; a column that the code has not created
  yet is never read before it is written. \<open>max_import_demand\<close> is the column
  \<open>PEAK_ELECTRICITY_IMPORT\<close> of a frame over the same index, row by row.

  The module \<open>controller\<close> reads the sampling factor as
  \<open>sim_Arguments.POWER_TO_ENERGY_FACTOR\<close>. It imports \<open>sim_parameters\<close> and binds no
  name \<open>sim_Arguments\<close>, neither by an import nor by an assignment, so that evaluating
  the name raises \<open>NameError\<close>, every time (\<open>charger.py\<close> and \<open>data_processing.py\<close>
  read \<open>sim_parameters.POWER_TO_ENERGY_FACTOR\<close>). The model of a function that reads
  the name follows the source up to that statement: what the function has after a
  statement that raises on every execution is never executed.
\<close>

record site_row =
  timestep :: datetime
  site_energy :: real
  target :: real
  charger_load_profile :: real
  cumulative_energy :: real

text \<open>Selecting with a boolean mask (\<open>frame.loc[mask, col]\<close>) and writing an array
  through one (\<open>frame.loc[mask, col] = values\<close>).\<close>

fun mask_select :: "bool list \<Rightarrow> 'a list \<Rightarrow> 'a list" where
  "mask_select (m # ms) (x # xs) = (if m then x # mask_select ms xs else mask_select ms xs)"
| "mask_select _ _ = []"

fun mask_assign :: "bool list \<Rightarrow> real list \<Rightarrow> site_row list \<Rightarrow> site_row list" where
  "mask_assign (True # ms) (v # vs) (r # rs) =
     r\<lparr>charger_load_profile := v\<rparr> # mask_assign ms vs rs"
| "mask_assign (False # ms) vs (r # rs) = r # mask_assign ms vs rs"
| "mask_assign _ _ rs = rs"

text \<open>The truth value of the optional array \<open>existing_load_demand\<close>: \<open>None\<close> and the
  empty array are false, an array of one element is as true as the element, a longer
  array has no truth value.\<close>

fun truth_value :: "real list option \<Rightarrow> error + bool" where
  "truth_value None = Inr False"
| "truth_value (Some []) = Inr False"
| "truth_value (Some [x]) = Inr (x \<noteq> 0)"
| "truth_value (Some (x # y # zs)) = Inl ValueError"

text \<open>The result is \<open>None\<close> where the Python function falls off its end. Series
  that are not labelled alike cannot be compared.\<close>

definition charger_load_availability_profile ::
  "real list \<Rightarrow> real list \<Rightarrow> real \<Rightarrow> real list option \<Rightarrow> error + real list option" where
  "charger_load_availability_profile site_load_demand_profile max_import_demand
       max_charger_output existing_load_demand =
     (case truth_value existing_load_demand of
        Inl err \<Rightarrow> Inl err
      | Inr True \<Rightarrow> Inr None
      | Inr False \<Rightarrow>
          if length site_load_demand_profile \<noteq> length max_import_demand then Inl ValueError
          else
            let charger_max_load_profile =
                  map2 (\<lambda>load limit. if load + max_charger_output > limit
                                      then limit - load else max_charger_output)
                    site_load_demand_profile max_import_demand;
                charger_max_load_profile =
                  map (\<lambda>v. if v < 0 then 0 else v) charger_max_load_profile
            in Inr (Some charger_max_load_profile))"

text \<open>
  \<open>combine_load_profile\<close> sets the load column to 0 and computes the plugged mask. The
  right-hand side of its assignment is the call of
  \<open>charger_load_availability_profile\<close>, whose first argument is the site energy of the
  plugged rows divided by \<open>sim_Arguments.POWER_TO_ENERGY_FACTOR\<close> (line 101): the
  arguments are evaluated before the call, the selection of the plugged rows succeeds,
  and the name lookup raises. The headroom function is not called.
\<close>

definition combine_load_profile ::
  "site_row list \<Rightarrow> EV \<Rightarrow> real list \<Rightarrow> real \<Rightarrow> error + site_row list" where
  "combine_load_profile site_dataf new_ev max_import_demand max_charger_output =
     (let site_dataf = map (\<lambda>r. r\<lparr>charger_load_profile := 0\<rparr>) site_dataf;
          plugged_time = get_plugged_profile (schedule (battery new_ev))
                           (map timestep site_dataf);
          plugged_site_energy = map site_energy (mask_select plugged_time site_dataf)
      in Inl NameError)"

text \<open>
  \<open>sort_values\<close> is pandas' \<open>DataFrame.sort_values(target_col, ascending=True)\<close> with
  its default sorting algorithm. It is a parameter: the library is not part of the
  sources, and the call does not ask for a stable algorithm. After sorting,
  \<open>cumsum_energy_consumed\<close> multiplies the load column by
  \<open>sim_Arguments.POWER_TO_ENERGY_FACTOR\<close> (line 126), which raises.
\<close>

definition cumsum_energy_consumed ::
  "(site_row list \<Rightarrow> site_row list) \<Rightarrow> site_row list \<Rightarrow> error + site_row list" where
  "cumsum_energy_consumed sort_values site_dataf =
     (let temp_dataf = sort_values site_dataf;
          load_column = map charger_load_profile temp_dataf
      in Inl NameError)"

definition find_last_index :: "site_row list \<Rightarrow> real \<Rightarrow> nat" where
  "find_last_index dataf energy_required =
     (let last_index = length (filter (\<lambda>r. cumulative_energy r < energy_required) dataf) + 1
      in if last_index > length dataf then length dataf else last_index)"

definition generate_filter :: "site_row list \<Rightarrow> real \<Rightarrow> bool list" where
  "generate_filter dataf energy_required =
     (let last_charging_index = find_last_index dataf energy_required
      in replicate last_charging_index True
         @ replicate (length dataf - last_charging_index) False)"

text \<open>The loop of \<open>calculate_optimized_charging_profile\<close>, with the running
  \<open>total_charger_energy_output\<close> as an argument. The first statement of its body
  multiplies the slot's power by \<open>sim_Arguments.POWER_TO_ENERGY_FACTOR\<close> (line 190):
  the first iteration raises, and only a loop over no slot at all returns, with the
  empty array.\<close>

fun optimizer_loop :: "real \<Rightarrow> real \<Rightarrow> real list \<Rightarrow> error + real list" where
  "optimizer_loop energy_required running [] = Inr []"
| "optimizer_loop energy_required running (temp_charger_power_output # rest) = Inl NameError"

definition calculate_optimized_charging_profile ::
  "site_row list \<Rightarrow> real \<Rightarrow> error + real list" where
  "calculate_optimized_charging_profile dataf energy_required =
     (let filt = generate_filter dataf energy_required;
          org_charger_load_profile = map charger_load_profile (mask_select filt dataf)
      in optimizer_loop energy_required 0 org_charger_load_profile)"

text \<open>\<open>apply_new_charging_profile\<close> writes the updated profile through the filter, sets
  the other rows to 0 and returns the load column sorted by index label.\<close>

definition apply_new_charging_profile ::
  "site_row list \<Rightarrow> real \<Rightarrow> error + (datetime \<times> real) list" where
  "apply_new_charging_profile dataf energy_required =
     (let filt = generate_filter dataf energy_required
      in case calculate_optimized_charging_profile dataf energy_required of
           Inl err \<Rightarrow> Inl err
         | Inr updated_charger_load_profile \<Rightarrow>
             (let temp_dataf = mask_assign filt updated_charger_load_profile dataf;
                  temp_dataf = map2 (\<lambda>f r. if \<not> f then r\<lparr>charger_load_profile := 0\<rparr> else r)
                                 filt temp_dataf
              in Inr (sort_key fst
                        (map (\<lambda>r. (timestep r, charger_load_profile r)) temp_dataf))))"

definition get_charging_profile_for_single_day ::
  "(site_row list \<Rightarrow> site_row list) \<Rightarrow> site_row list \<Rightarrow> EV \<Rightarrow> real list \<Rightarrow> real
     \<Rightarrow> error + (datetime \<times> real) list" where
  "get_charging_profile_for_single_day sort_values day_dataf ev max_import_demand
       max_charger_load =
     (case combine_load_profile day_dataf ev max_import_demand max_charger_load of
        Inl err \<Rightarrow> Inl err
      | Inr combined \<Rightarrow>
          (case cumsum_energy_consumed sort_values combined of
             Inl err \<Rightarrow> Inl err
           | Inr ranked \<Rightarrow>
               apply_new_charging_profile ranked (requested_energy (battery ev))))"

subsection \<open>charger.Charger and the object store\<close>

text \<open>
  Chargers and vehicles are objects: a charger's \<open>ev_list\<close> holds references to
  vehicles, and the dictionary of chargers holds references to chargers. The store
  maps addresses to objects; the addresses below \<open>ev_top\<close> and \<open>charger_top\<close> are the
  allocated ones. The battery and the recorder of a vehicle and the recorder of a
  charger belong to their object alone and are kept inside it. The charger type and
  the cost attributes of a charger play no part in the simulation and are left out.
\<close>

record Charger =
  charger_name :: string
  max_output :: real
  ev_list :: "nat list"
  no_connections :: nat
  charger_data_recorder :: TimeserieRecorder

record store =
  ev_store :: "nat \<Rightarrow> EV"
  ev_top :: nat
  charger_store :: "nat \<Rightarrow> Charger"
  charger_top :: nat

text \<open>\<open>copy.deepcopy\<close> of the dictionary of chargers: every charger and every vehicle
  reached from it is copied to a new address, once (the memo maps the original to its
  copy), and the copies refer to copies.\<close>

fun deepcopy_evs ::
  "store \<Rightarrow> (nat \<times> nat) list \<Rightarrow> nat list \<Rightarrow> store \<times> (nat \<times> nat) list \<times> nat list" where
  "deepcopy_evs s memo [] = (s, memo, [])"
| "deepcopy_evs s memo (a # as) =
     (case map_of memo a of
        Some a' \<Rightarrow>
          (case deepcopy_evs s memo as of (s', memo', as') \<Rightarrow> (s', memo', a' # as'))
      | None \<Rightarrow>
          (let a' = ev_top s;
               s1 = s\<lparr>ev_store := (ev_store s)(a' := ev_store s a), ev_top := Suc a'\<rparr>
           in case deepcopy_evs s1 ((a, a') # memo) as of
                (s', memo', as') \<Rightarrow> (s', memo', a' # as')))"

fun deepcopy_chargers ::
  "store \<Rightarrow> (nat \<times> nat) list \<Rightarrow> (nat \<times> nat) list \<Rightarrow> (string \<times> nat) list
     \<Rightarrow> store \<times> (nat \<times> nat) list \<times> (nat \<times> nat) list \<times> (string \<times> nat) list" where
  "deepcopy_chargers s ev_memo memo [] = (s, ev_memo, memo, [])"
| "deepcopy_chargers s ev_memo memo ((key, a) # rest) =
     (case map_of memo a of
        Some a' \<Rightarrow>
          (case deepcopy_chargers s ev_memo memo rest of
             (s', ev_memo', memo', rest') \<Rightarrow> (s', ev_memo', memo', (key, a') # rest'))
      | None \<Rightarrow>
          (case deepcopy_evs s ev_memo (ev_list (charger_store s a)) of
             (s1, ev_memo1, evs') \<Rightarrow>
               (let a' = charger_top s1;
                    s2 = s1\<lparr>charger_store :=
                              (charger_store s1)(a' := (charger_store s1 a)\<lparr>ev_list := evs'\<rparr>),
                            charger_top := Suc a'\<rparr>
                in case deepcopy_chargers s2 ev_memo1 ((a, a') # memo) rest of
                     (s', ev_memo', memo', rest') \<Rightarrow>
                       (s', ev_memo', memo', (key, a') # rest'))))"

definition deepcopy :: "store \<Rightarrow> (string \<times> nat) list \<Rightarrow> store \<times> (string \<times> nat) list" where
  "deepcopy s dict_chargers =
     (case deepcopy_chargers s [] [] dict_chargers of (s', ev_memo, memo, copy) \<Rightarrow> (s', copy))"

subsection \<open>controller: the optimizer over the year\<close>

text \<open>
  \<open>run_optimizer\<close> copies the site frame and sums its site energy; its third statement
  divides the largest site energy by \<open>sim_Arguments.POWER_TO_ENERGY_FACTOR\<close>
  (line 249) and raises. This is before the loops over the chargers and their vehicles:
  no charging profile is computed and no charger or vehicle is simulated. A call that
  returned would return the store it leaves and the result frame.
\<close>

definition run_optimizer ::
  "store \<Rightarrow> (string \<times> nat) list \<Rightarrow> site_row list \<Rightarrow> (datetime \<times> real) list
     \<Rightarrow> error + (store \<times> site_row list)" where
  "run_optimizer s dict_chargers site_df max_import_demand =
     (let results_df = site_df;
          site_demand = sum_list (map site_energy site_df)
      in Inl NameError)"

subsection \<open>ev_system.Ev_System\<close>

record Ev_System =
  system_name :: string
  system_data_recorder :: TimeserieRecorder
  dict_site_assets :: "(string \<times> nat) list"
  size_system :: real

text \<open>The frames of the chargers are put side by side over the union of their index
  labels and every row is summed over all columns; the sums are recorded as the energy
  input of the site. Without any charger there is nothing to concatenate.\<close>

definition row_sum :: "store \<Rightarrow> (string \<times> nat) list \<Rightarrow> datetime \<Rightarrow> int" where
  "row_sum s assets t =
     sum_list (map (\<lambda>(key, a).
        let r = charger_data_recorder (charger_store s a)
        in if t \<in> set (index r)
           then sum_list (map (\<lambda>c. recorded_data r c t) (get_column_names r)) else 0)
       assets)"

definition get_recorded_data_from_chargers :: "store \<Rightarrow> Ev_System \<Rightarrow> error + Ev_System" where
  "get_recorded_data_from_chargers s self =
     (if dict_site_assets self = [] then Inl ValueError
      else
        let labels = remdups (concat (map (\<lambda>(key, a).
                       index (charger_data_recorder (charger_store s a)))
                       (dict_site_assets self)))
        in case record_batch_data (system_data_recorder self) labels
                  (map (\<lambda>t. real_of_int (row_sum s (dict_site_assets self) t)) labels)
                  ''ENERGY_INPUT'' of
             Inl err \<Rightarrow> Inl err
           | Inr r \<Rightarrow> Inr (self\<lparr>system_data_recorder := r\<rparr>))"

definition Ev_System_init ::
  "store \<Rightarrow> string \<Rightarrow> TimeserieRecorder \<Rightarrow> (string \<times> nat) list \<Rightarrow> error + Ev_System" where
  "Ev_System_init s nm recorder assets =
     get_recorded_data_from_chargers s
       \<lparr>system_name = nm, system_data_recorder = recorder, dict_site_assets = assets,
        size_system = sum_list (map (\<lambda>(key, a). max_output (charger_store s a)) assets)\<rparr>"

subsection \<open>controller.Optimized_Sites\<close>

datatype SiteScheduleOptimzer =
  BASE_OPTIMIZER | EMISSION_OPTIMIZER | PRICE_OPTIMIZER | PV_OPTIMIZER

fun optimizer_name :: "SiteScheduleOptimzer \<Rightarrow> string" where
  "optimizer_name BASE_OPTIMIZER = ''BASE_OPTIMIZER''"
| "optimizer_name EMISSION_OPTIMIZER = ''EMISSION_OPTIMIZER''"
| "optimizer_name PRICE_OPTIMIZER = ''PRICE_OPTIMIZER''"
| "optimizer_name PV_OPTIMIZER = ''PV_OPTIMIZER''"

text \<open>
  The frames of an \<open>Optimized_Sites\<close> have one column each: the site energy, the import
  limit, and the optional carbon, price and PV series. The column labels are not
  modelled: the demand frame is the one with the column \<open>Site energy [kWh]\<close>, and a
  carbon or price frame is labelled otherwise.
\<close>

record Optimized_Sites =
  site_timesteps :: "datetime list"
  site_electricity_demand :: "(datetime \<times> real) list"
  dict_of_chargers :: "(string \<times> nat) list"
  site_data_recorder :: TimeserieRecorder
  peak_import_demand :: "(datetime \<times> real) list"
  carbon_dataf :: "(datetime \<times> real) list option"
  price_dataf :: "(datetime \<times> real) list option"
  pv_dataf :: "(datetime \<times> real) list option"

definition create_dataf_base :: "(datetime \<times> real) list \<Rightarrow> site_row list" where
  "create_dataf_base electricity_demand =
     map (\<lambda>(t, energy). \<lparr>timestep = t, site_energy = energy, target = real (hour t),
                          charger_load_profile = 0, cumulative_energy = 0\<rparr>)
       electricity_demand"

definition create_dataf_for_control ::
  "(datetime \<times> real) list \<Rightarrow> (datetime \<times> real) list \<Rightarrow> error + site_row list" where
  "create_dataf_for_control target_dataf electricity_demand =
     (if map fst target_dataf \<noteq> map fst electricity_demand then Inl MissingValues
      else Inr (map2 (\<lambda>(t, v) (t', energy).
                        \<lparr>timestep = t, site_energy = energy, target = v,
                         charger_load_profile = 0, cumulative_energy = 0\<rparr>)
                  target_dataf electricity_demand))"

text \<open>\<open>optimizer_selector\<close> compares the target frame with the demand frame. They are
  equal when they are one frame, as in the call for the PV strategy; then target and
  site energy are both that frame's column.\<close>

definition optimizer_selector ::
  "(datetime \<times> real) list \<Rightarrow> (datetime \<times> real) list option \<Rightarrow> bool \<Rightarrow> error + site_row list" where
  "optimizer_selector electricity_demand target_dataf equals =
     (case target_dataf of
        None \<Rightarrow> Inr (create_dataf_base electricity_demand)
      | Some target_frame \<Rightarrow>
          if equals
          then Inr (map (\<lambda>(t, v). \<lparr>timestep = t, site_energy = v, target = v,
                                   charger_load_profile = 0, cumulative_energy = 0\<rparr>)
                      target_frame)
          else create_dataf_for_control target_frame electricity_demand)"

fun site_dataf_creator :: "Optimized_Sites \<Rightarrow> SiteScheduleOptimzer \<Rightarrow> error + site_row list" where
  "site_dataf_creator self BASE_OPTIMIZER =
     optimizer_selector (site_electricity_demand self) None False"
| "site_dataf_creator self EMISSION_OPTIMIZER =
     optimizer_selector (site_electricity_demand self) (carbon_dataf self) False"
| "site_dataf_creator self PRICE_OPTIMIZER =
     optimizer_selector (site_electricity_demand self) (price_dataf self) False"
| "site_dataf_creator self PV_OPTIMIZER =
     (case pv_dataf self of
        None \<Rightarrow> Inl AttributeError
      | Some pv \<Rightarrow> optimizer_selector pv (Some pv) True)"

definition generate_controlled_site ::
  "store \<Rightarrow> Optimized_Sites \<Rightarrow> (string \<times> nat) list \<Rightarrow> SiteScheduleOptimzer
     \<Rightarrow> error + Ev_System" where
  "generate_controlled_site s self chargers control_type =
     Ev_System_init s (optimizer_name control_type @ ''_SITE'') (site_data_recorder self)
       chargers"

text \<open>\<open>run_control_method\<close> yields the store it leaves together with its outcome: the
  site it built, \<open>None\<close> when it falls through its first branch, or the exception it
  raises. An exception leaves the objects as they are at that moment.\<close>

definition run_control_method ::
  "store \<Rightarrow> Optimized_Sites \<Rightarrow> SiteScheduleOptimzer \<Rightarrow> store \<times> (error + Ev_System option)" where
  "run_control_method s self control_type =
     (if (carbon_dataf self = None \<and> control_type = EMISSION_OPTIMIZER)
         \<or> (price_dataf self = None \<and> control_type = PRICE_OPTIMIZER)
         \<or> (pv_dataf self = None \<and> control_type = PV_OPTIMIZER)
      then (s, Inr None)
      else
        case deepcopy s (dict_of_chargers self) of
          (s1, copy_chargers) \<Rightarrow>
            (case site_dataf_creator self control_type of
               Inl err \<Rightarrow> (s1, Inl err)
             | Inr site_dataf \<Rightarrow>
                 (case run_optimizer s1 copy_chargers site_dataf (peak_import_demand self) of
                    Inl err \<Rightarrow> (s1, Inl err)
                  | Inr (s2, results_df) \<Rightarrow>
                      (case generate_controlled_site s2 self copy_chargers control_type of
                         Inl err \<Rightarrow> (s2, Inl err)
                       | Inr gen_site \<Rightarrow>
                           (case get_recorded_data_from_chargers s2 gen_site of
                              Inl err \<Rightarrow> (s2, Inl err)
                            | Inr gen_site' \<Rightarrow> (s2, Inr (Some gen_site')))))))"

definition run_all_control_methods ::
  "store \<Rightarrow> Optimized_Sites \<Rightarrow> store \<times> (error + (string \<times> Ev_System option) list)" where
  "run_all_control_methods s self =
     (case run_control_method s self BASE_OPTIMIZER of
        (s1, Inl err) \<Rightarrow> (s1, Inl err)
      | (s1, Inr basic_site) \<Rightarrow>
     (case run_control_method s1 self EMISSION_OPTIMIZER of
        (s2, Inl err) \<Rightarrow> (s2, Inl err)
      | (s2, Inr emissions_site) \<Rightarrow>
     (case run_control_method s2 self PRICE_OPTIMIZER of
        (s3, Inl err) \<Rightarrow> (s3, Inl err)
      | (s3, Inr price_site) \<Rightarrow>
     (case run_control_method s3 self PV_OPTIMIZER of
        (s4, Inl err) \<Rightarrow> (s4, Inl err)
      | (s4, Inr pv_site) \<Rightarrow>
          (s4, Inr [(''Basic'', basic_site), (''Emission'', emissions_site),
                    (''Price'', price_site), (''PV'', pv_site)])))))"

subsection \<open>Which objects a run may write\<close>

text \<open>
  References within a range of addresses, and a store whose chargers from \<open>clo\<close> on
  refer to vehicles from \<open>elo\<close> on only. A roster is allocated in a store when its
  chargers and their vehicles are objects of the store; its objects are the same in two
  stores when every charger and every vehicle of it is; and it is fresh when its
  chargers and their vehicles were allocated between the two stores. A strategy other
  than the base strategy needs its series to be supplied.
\<close>

definition refs_within :: "nat \<Rightarrow> nat \<Rightarrow> nat list \<Rightarrow> bool" where
  "refs_within lo hi as = list_all (\<lambda>a. lo \<le> a \<and> a < hi) as"

definition copies_closed :: "nat \<Rightarrow> nat \<Rightarrow> store \<Rightarrow> bool" where
  "copies_closed elo clo s \<longleftrightarrow>
     (\<forall>c. clo \<le> c \<and> c < charger_top s
          \<longrightarrow> refs_within elo (ev_top s) (ev_list (charger_store s c)))"

definition roster_allocated :: "store \<Rightarrow> (string \<times> nat) list \<Rightarrow> bool" where
  "roster_allocated s d \<longleftrightarrow>
     list_all (\<lambda>c. c < charger_top s
                 \<and> list_all (\<lambda>b. b < ev_top s) (ev_list (charger_store s c))) (map snd d)"

definition same_objects :: "store \<Rightarrow> store \<Rightarrow> (string \<times> nat) list \<Rightarrow> bool" where
  "same_objects s s' d \<longleftrightarrow>
     list_all (\<lambda>c. charger_store s' c = charger_store s c
                 \<and> list_all (\<lambda>b. ev_store s' b = ev_store s b) (ev_list (charger_store s c)))
       (map snd d)"

definition fresh_objects :: "store \<Rightarrow> store \<Rightarrow> (string \<times> nat) list \<Rightarrow> bool" where
  "fresh_objects s s' d \<longleftrightarrow>
     list_all (\<lambda>c. charger_top s \<le> c \<and> c < charger_top s'
                 \<and> list_all (\<lambda>b. ev_top s \<le> b \<and> b < ev_top s') (ev_list (charger_store s' c)))
       (map snd d)"

fun profile_supplied :: "Optimized_Sites \<Rightarrow> SiteScheduleOptimzer \<Rightarrow> bool" where
  "profile_supplied self BASE_OPTIMIZER = True"
| "profile_supplied self EMISSION_OPTIMIZER = (carbon_dataf self \<noteq> None)"
| "profile_supplied self PRICE_OPTIMIZER = (price_dataf self \<noteq> None)"
| "profile_supplied self PV_OPTIMIZER = (pv_dataf self \<noteq> None)"

subsection \<open>The headroom as the specification words it\<close>

text \<open>The smaller of the charger's maximum output and what the import limit leaves above
  the existing site load, floored at zero.\<close>

definition headroom :: "real \<Rightarrow> real \<Rightarrow> real \<Rightarrow> real" where
  "headroom charger_max_output import_limit existing_site_load =
     max 0 (min charger_max_output (import_limit - existing_site_load))"

subsection \<open>The allocation as the specification words it\<close>

text \<open>
  Walk the ranked slots with the energy allocated so far: a slot whose full headroom
  energy does not take the total above the requested energy gets its full headroom;
  the first slot that would gets exactly the remaining deficit, and every slot after
  it gets zero.
\<close>

fun spec_greedy :: "real \<Rightarrow> real \<Rightarrow> real \<Rightarrow> real list \<Rightarrow> real list" where
  "spec_greedy sampling_interval requested running [] = []"
| "spec_greedy sampling_interval requested running (slot_headroom # rest) =
     (if running + slot_headroom * sampling_interval \<le> requested
      then slot_headroom
           # spec_greedy sampling_interval requested
               (running + slot_headroom * sampling_interval) rest
      else ((requested - running) / sampling_interval) # map (\<lambda>_. 0) rest)"

subsection \<open>The transition of the battery as the specification words it\<close>

text \<open>
  The four steps of the specification, for comparison with \<open>run_model\<close>: losses first;
  unplugged resets to the initial state of charge and consumes nothing; plugged at the
  target consumes nothing; otherwise the offer is added, clipped to what is missing to
  the target.
\<close>

definition spec_run_model :: "Battery \<Rightarrow> datetime \<Rightarrow> real \<Rightarrow> real \<times> Battery" where
  "spec_run_model b t e_offer =
     (let soc1 = current_soc b - battery_losses b;
          capacity = battery_size b
      in if \<not> is_plugged (schedule b) t then (0, b\<lparr>current_soc := initial_soc b\<rparr>)
         else if soc1 = target_soc b then (0, b\<lparr>current_soc := soc1\<rparr>)
         else if capacity * soc1 + e_offer > capacity * target_soc b
              then (capacity * target_soc b - capacity * soc1,
                    b\<lparr>current_soc := target_soc b\<rparr>)
              else (e_offer, b\<lparr>current_soc := soc1 + e_offer / capacity\<rparr>))"

subsection \<open>Sample inputs\<close>

text \<open>Monday 0001-01-01 at 09:00 is inside the default schedule, Saturday 0001-01-06
  at 09:00 is not.\<close>

definition monday_9am :: datetime where
  "monday_9am = 9 * 3600"

definition saturday_9am :: datetime where
  "saturday_9am = 5 * 86400 + 9 * 3600"

text \<open>The vehicle of scenario A: 60 kWh, at 0.5, target 0.65, no losses.\<close>

definition scenario_battery :: Battery where
  "scenario_battery = Battery_init (1/2) (13/20) 60 default_schedule 0 0"

text \<open>A day of three half-hours on a Monday morning whose ranking by target is not
  chronological, each with 7 kW of headroom.\<close>

definition ranked_day :: "site_row list" where
  "ranked_day =
     [\<lparr>timestep = 9 * 3600, site_energy = 1, target = 3,
       charger_load_profile = 7, cumulative_energy = 0\<rparr>,
      \<lparr>timestep = 9 * 3600 + 1800, site_energy = 1, target = 1,
       charger_load_profile = 7, cumulative_energy = 0\<rparr>,
      \<lparr>timestep = 10 * 3600, site_energy = 1, target = 2,
       charger_load_profile = 7, cumulative_energy = 0\<rparr>]"

text \<open>That vehicle with a recorder over two timesteps.\<close>

definition scenario_ev :: EV where
  "scenario_ev =
     \<lparr>name = ''EV_1'', battery = scenario_battery,
      data_recorder = TimeserieRecorder_init [monday_9am, saturday_9am]
                        [''TIMESTEP'', ''SOC'', ''ENERGY_INPUT'', ''PLUGGED'']\<rparr>"

text \<open>The same three half-hours as \<open>cumsum_energy_consumed\<close> would hand them on for a
  sampling factor of one half: ranked by target, with the cumulated energy of the
  load column.\<close>

definition ranked_frame :: "site_row list" where
  "ranked_frame =
     [\<lparr>timestep = 9 * 3600 + 1800, site_energy = 1, target = 1,
       charger_load_profile = 7, cumulative_energy = 7/2\<rparr>,
      \<lparr>timestep = 10 * 3600, site_energy = 1, target = 2,
       charger_load_profile = 7, cumulative_energy = 7\<rparr>,
      \<lparr>timestep = 9 * 3600, site_energy = 1, target = 3,
       charger_load_profile = 7, cumulative_energy = 21/2\<rparr>]"

text \<open>A site of one charger with one vehicle over two half-hours of a Monday morning,
  with no carbon, price or PV series. The store holds the vehicle and the charger at
  address 0.\<close>

definition demo_index :: "datetime list" where
  "demo_index = [9 * 3600, 9 * 3600 + 1800]"

definition demo_ev :: EV where
  "demo_ev =
     \<lparr>name = ''EV_1'', battery = scenario_battery,
      data_recorder = TimeserieRecorder_init demo_index
                        [''TIMESTEP'', ''SOC'', ''ENERGY_INPUT'', ''PLUGGED'']\<rparr>"

definition demo_charger :: Charger where
  "demo_charger =
     \<lparr>charger_name = ''Charger_1'', max_output = 7, ev_list = [0], no_connections = 1,
      charger_data_recorder = TimeserieRecorder_init demo_index [''TIMESTEP'', ''ENERGY_INPUT'']\<rparr>"

definition demo_store :: store where
  "demo_store =
     \<lparr>ev_store = (\<lambda>a. demo_ev), ev_top = 1,
      charger_store = (\<lambda>a. demo_charger), charger_top = 1\<rparr>"

definition demo_sites :: Optimized_Sites where
  "demo_sites =
     \<lparr>site_timesteps = demo_index,
      site_electricity_demand = [(9 * 3600, 1), (9 * 3600 + 1800, 1)],
      dict_of_chargers = [(''Charger_1'', 0)],
      site_data_recorder = TimeserieRecorder_init demo_index [''TIMESTEP'', ''ENERGY_INPUT''],
      peak_import_demand = [(9 * 3600, 10), (9 * 3600 + 1800, 10)],
      carbon_dataf = None, price_dataf = None, pv_dataf = None\<rparr>"

section \<open>Properties of the battery\<close>

lemma monday_9am_plugged: "is_plugged default_schedule monday_9am"
  by (simp add: is_plugged_def default_schedule_def Schedule_init_def monday_9am_def
      weekday_def time_of_def)

lemma saturday_9am_unplugged: "\<not> is_plugged default_schedule saturday_9am"
  by (simp add: is_plugged_def default_schedule_def Schedule_init_def saturday_9am_def
      weekday_def time_of_def)

text \<open>The four outcomes of one step of \<open>run_model\<close>.\<close>

lemma run_model_unplugged:
  "\<not> is_plugged (schedule b) t \<Longrightarrow>
     run_model b t e = Inr (0, b\<lparr>current_soc := initial_soc b\<rparr>)"
  by (simp add: run_model_def battery_is_plugged_def calculate_losses_def
      reset_current_soc_def)

lemma run_model_target_reached:
  "is_plugged (schedule b) t \<Longrightarrow> current_soc b - battery_losses b = target_soc b \<Longrightarrow>
     run_model b t e = Inr (0, b\<lparr>current_soc := target_soc b\<rparr>)"
  by (simp add: run_model_def battery_is_plugged_def calculate_losses_def
      target_charge_achieved_def)

lemma run_model_full_offer:
  "is_plugged (schedule b) t \<Longrightarrow> current_soc b - battery_losses b \<noteq> target_soc b \<Longrightarrow>
   (current_soc b - battery_losses b) * battery_size b + e \<le> battery_size b * target_soc b \<Longrightarrow>
   battery_size b \<noteq> 0 \<Longrightarrow>
     run_model b t e =
       Inr (e, b\<lparr>current_soc :=
                   ((current_soc b - battery_losses b) * battery_size b + e) / battery_size b\<rparr>)"
  by (simp add: run_model_def battery_is_plugged_def calculate_losses_def
      target_charge_achieved_def battery_is_charging_def Let_def)

lemma run_model_clipped:
  "is_plugged (schedule b) t \<Longrightarrow> current_soc b - battery_losses b \<noteq> target_soc b \<Longrightarrow>
   \<not> (current_soc b - battery_losses b) * battery_size b + e \<le> battery_size b * target_soc b \<Longrightarrow>
     run_model b t e =
       Inr (battery_size b * target_soc b
              - battery_size b * (current_soc b - battery_losses b),
            b\<lparr>current_soc := target_soc b\<rparr>)"
  by (simp add: run_model_def battery_is_plugged_def calculate_losses_def
      target_charge_achieved_def battery_is_charging_def Let_def
      target_energy_stored_def current_energy_stored_def)

text \<open>With a positive battery size a step never fails and only changes the state of
  charge, which ends at or below the larger of target and initial value.\<close>

lemma run_model_step:
  assumes pos: "0 < battery_size b"
  shows "\<exists>r x. run_model b t e = Inr (r, b\<lparr>current_soc := x\<rparr>)
           \<and> x \<le> max (target_soc b) (initial_soc b)
           \<and> (0 \<le> current_soc b \<and> 0 \<le> target_soc b \<and> 0 \<le> initial_soc b
                \<and> battery_losses b \<le> 0 \<and> 0 \<le> e \<longrightarrow> 0 \<le> x)"
proof (cases "is_plugged (schedule b) t")
  case False
  show ?thesis
    by (intro exI [of _ 0] exI [of _ "initial_soc b"])
       (simp add: run_model_unplugged [OF False])
next
  case True
  let ?c = "current_soc b - battery_losses b"
  show ?thesis
  proof (cases "?c = target_soc b")
    case eq: True
    show ?thesis
      by (intro exI [of _ 0] exI [of _ "target_soc b"])
         (simp add: run_model_target_reached [OF True eq])
  next
    case ne: False
    show ?thesis
    proof (cases "?c * battery_size b + e \<le> battery_size b * target_soc b")
      case fits: True
      let ?x = "(?c * battery_size b + e) / battery_size b"
      have nz: "battery_size b \<noteq> 0" using pos by simp
      have ub: "?x \<le> target_soc b"
        using fits pos by (simp add: pos_divide_le_eq mult.commute)
      have lb: "0 \<le> ?x" if "0 \<le> current_soc b" "battery_losses b \<le> 0" "0 \<le> e"
      proof -
        have "0 \<le> ?c" using that by simp
        then have "0 \<le> ?c * battery_size b" using pos by simp
        then have "0 \<le> ?c * battery_size b + e" using that by simp
        then show ?thesis using pos by simp
      qed
      show ?thesis
        by (intro exI [of _ e] exI [of _ ?x])
           (use ub lb in \<open>simp add: run_model_full_offer [OF True ne fits nz]\<close>)
    next
      case over: False
      show ?thesis
        by (intro exI [of _ "battery_size b * target_soc b - battery_size b * ?c"]
              exI [of _ "target_soc b"])
           (simp add: run_model_clipped [OF True ne over])
    qed
  qed
qed

text \<open>Over a whole run, for a battery of positive size: no step fails, the state of
  charge never exceeds 1 once target and initial value do not, and it never drops below
  0 when nothing is lost and nothing negative is offered.\<close>

lemma charging_loop_soc_bounds:
  assumes "0 < battery_size b" "length ts \<le> length es"
    "target_soc b \<le> 1" "initial_soc b \<le> 1"
  shows "\<exists>soc_arr en pl b'. charging_loop b ts es = Inr (soc_arr, en, pl, b')
           \<and> list_all (\<lambda>s. s \<le> 1) soc_arr
           \<and> (0 \<le> current_soc b \<and> 0 \<le> target_soc b \<and> 0 \<le> initial_soc b
                \<and> battery_losses b \<le> 0 \<and> list_all (\<lambda>e. 0 \<le> e) es
                \<longrightarrow> list_all (\<lambda>s. 0 \<le> s) soc_arr)"
  using assms
proof (induction b ts es rule: charging_loop.induct)
  case (1 b outs)
  show ?case by simp
next
  case (2 b t ts)
  then show ?case by simp
next
  case (3 b t ts e es)
  from run_model_step [OF "3.prems"(1), of t e] obtain r x where
    rm: "run_model b t e = Inr (r, b\<lparr>current_soc := x\<rparr>)"
    and ub: "x \<le> max (target_soc b) (initial_soc b)"
    and lb: "0 \<le> current_soc b \<and> 0 \<le> target_soc b \<and> 0 \<le> initial_soc b
                \<and> battery_losses b \<le> 0 \<and> 0 \<le> e \<longrightarrow> 0 \<le> x"
    by (elim exE conjE)
  let ?b' = "b\<lparr>current_soc := x\<rparr>"
  have pre: "0 < battery_size ?b'" "length ts \<le> length es"
    "target_soc ?b' \<le> 1" "initial_soc ?b' \<le> 1"
    using "3.prems" by simp_all
  from "3.IH" [OF rm refl pre] obtain soc_arr en pl b'' where
    cl: "charging_loop ?b' ts es = Inr (soc_arr, en, pl, b'')"
    and ub': "list_all (\<lambda>s. s \<le> 1) soc_arr"
    and lb': "0 \<le> current_soc ?b' \<and> 0 \<le> target_soc ?b' \<and> 0 \<le> initial_soc ?b'
                \<and> battery_losses ?b' \<le> 0 \<and> list_all (\<lambda>e. 0 \<le> e) es
                \<longrightarrow> list_all (\<lambda>s. 0 \<le> s) soc_arr"
    by (elim exE conjE)
  have x1: "x \<le> 1" using ub "3.prems"(3,4) by simp
  have res: "charging_loop b (t # ts) (e # es) =
      Inr (x # soc_arr, r # en, (if is_plugged (schedule b) t then 1 else 0) # pl, b'')"
    by (simp add: rm cl)
  have low: "0 \<le> current_soc b \<and> 0 \<le> target_soc b \<and> 0 \<le> initial_soc b
                \<and> battery_losses b \<le> 0 \<and> list_all (\<lambda>e. 0 \<le> e) (e # es)
             \<longrightarrow> list_all (\<lambda>s. 0 \<le> s) (x # soc_arr)"
    using lb lb' by simp
  show ?case
    unfolding res
    by (intro exI [of _ "x # soc_arr"] exI [of _ "r # en"]
          exI [of _ "(if is_plugged (schedule b) t then 1 else 0) # pl"] exI [of _ b''] conjI
          refl low)
       (simp add: x1 ub')
qed

lemma Battery_init_fields:
  "current_soc (Battery_init c t s sch l i) = min c 1"
  "target_soc (Battery_init c t s sch l i) = min t 1"
  "initial_soc (Battery_init c t s sch l i) = min c 1"
  "battery_size (Battery_init c t s sch l i) = s"
  "battery_losses (Battery_init c t s sch l i) = l"
  "schedule (Battery_init c t s sch l i) = sch"
  by (simp_all add: Battery_init_def Let_def min_def)

section \<open>Claims about the battery\<close>

text \<open>
  C7, as stated: every constructor input, also one below 0, yields a battery with
  \<open>0 \<le> current_soc \<le> 1\<close> and \<open>0 \<le> target_soc \<le> 1\<close>. The constructor has no lower
  clamp: a negative state of charge stays negative.
\<close>

theorem Battery_init_keeps_negative_soc:
  "current_soc (Battery_init (- (1/2)) (- (1/4)) 60 default_schedule 0 0) = - (1/2)
   \<and> target_soc (Battery_init (- (1/2)) (- (1/4)) 60 default_schedule 0 0) = - (1/4)
   \<and> \<not> 0 \<le> current_soc (Battery_init (- (1/2)) (- (1/4)) 60 default_schedule 0 0)"
  by (simp add: Battery_init_fields)

text \<open>
  C7, amended: the constructor clamps from above only. For every input the constructed
  battery has \<open>current_soc = min current_soc 1\<close> and \<open>target_soc = min target_soc 1\<close>
  (so both are at most 1, and a value below 0 is kept), and \<open>initial_soc\<close> is the
  clamped \<open>current_soc\<close>, whatever was passed for it.
\<close>

theorem Battery_init_clamps_above_only:
  "current_soc (Battery_init cur tgt size_kwh sched losses init) = min cur 1
   \<and> target_soc (Battery_init cur tgt size_kwh sched losses init) = min tgt 1
   \<and> initial_soc (Battery_init cur tgt size_kwh sched losses init) = min cur 1
   \<and> current_soc (Battery_init cur tgt size_kwh sched losses init) \<le> 1
   \<and> target_soc (Battery_init cur tgt size_kwh sched losses init) \<le> 1"
  by (simp add: Battery_init_fields)

text \<open>
  C3: one step of \<open>run_model\<close> is the four-step transition of the specification:
  losses are subtracted first; an unplugged vehicle is reset to exactly \<open>initial_soc\<close>
  and consumes 0; a plugged vehicle at its target consumes 0 and keeps its state of
  charge; a plugged vehicle elsewhere consumes the offer, clipped to
  \<open>target_energy_stored - current_energy_stored\<close> with the state of charge set to
  exactly \<open>target_soc\<close> when the offer would overshoot, and the full offer with a
  proportional rise otherwise. The battery size is not zero (the proportional rise
  divides by it).
\<close>

theorem run_model_is_spec_transition:
  "battery_size b \<noteq> 0 \<Longrightarrow> run_model b t e = Inr (spec_run_model b t e)"
  by (simp add: run_model_def battery_is_plugged_def calculate_losses_def
      battery_is_charging_def target_charge_achieved_def reset_current_soc_def
      spec_run_model_def Let_def target_energy_stored_def current_energy_stored_def
      add_divide_distrib mult.commute)

theorem run_model_is_spec_transition_witness:
  "battery_size scenario_battery \<noteq> 0
   \<and> run_model scenario_battery monday_9am 2 = Inr (spec_run_model scenario_battery monday_9am 2)
   \<and> spec_run_model scenario_battery monday_9am 2
        = (2, scenario_battery\<lparr>current_soc := 8/15\<rparr>)
   \<and> spec_run_model scenario_battery monday_9am 20
        = (9, scenario_battery\<lparr>current_soc := 13/20\<rparr>)
   \<and> spec_run_model (scenario_battery\<lparr>current_soc := 8/15\<rparr>) saturday_9am 2
        = (0, scenario_battery)"
  using run_model_is_spec_transition [of scenario_battery monday_9am 2]
    monday_9am_plugged saturday_9am_unplugged
  by (simp add: scenario_battery_def Battery_init_def spec_run_model_def Let_def)

text \<open>
  C5, as stated: for every battery state and every offer \<open>e \<ge> 0\<close> the energy returned
  by \<open>run_model\<close> lies in \<open>[0, e]\<close>. A battery constructed above its target (0.8 against
  0.5, 60 kWh), plugged and offered 1 kWh, returns -18 kWh.
\<close>

theorem run_model_returns_negative_energy:
  "run_model (Battery_init (4/5) (1/2) 60 default_schedule 0 0) monday_9am 1
     = Inr (- 18, \<lparr>current_soc = 1/2, target_soc = 1/2, battery_size = 60,
                   schedule = default_schedule, battery_losses = 0, initial_soc = 4/5\<rparr>)
   \<and> \<not> (0::real) \<le> - 18"
  using monday_9am_plugged
  by (simp add: run_model_def battery_is_plugged_def calculate_losses_def
      battery_is_charging_def target_charge_achieved_def
      Let_def target_energy_stored_def current_energy_stored_def Battery_init_def)

text \<open>
  C5, amended: for every battery of positive size whose state of charge after losses
  is not above its target, every datetime and every offer \<open>e \<ge> 0\<close>, \<open>run_model\<close>
  returns, and the energy it returns lies in \<open>[0, e]\<close>.
\<close>

theorem run_model_energy_within_offer:
  assumes "0 < battery_size b" "current_soc b - battery_losses b \<le> target_soc b" "0 \<le> e"
  shows "\<exists>r b'. run_model b t e = Inr (r, b') \<and> 0 \<le> r \<and> r \<le> e"
proof (cases "is_plugged (schedule b) t")
  case False
  show ?thesis using assms(3) by (simp add: run_model_unplugged [OF False])
next
  case True
  let ?c = "current_soc b - battery_losses b"
  show ?thesis
  proof (cases "?c = target_soc b")
    case eq: True
    show ?thesis using assms(3) by (simp add: run_model_target_reached [OF True eq])
  next
    case ne: False
    show ?thesis
    proof (cases "?c * battery_size b + e \<le> battery_size b * target_soc b")
      case fits: True
      have nz: "battery_size b \<noteq> 0" using assms(1) by simp
      show ?thesis using assms(3) by (simp add: run_model_full_offer [OF True ne fits nz])
    next
      case over: False
      have "battery_size b * ?c \<le> battery_size b * target_soc b"
        using assms(1,2) by (simp add: mult_left_mono)
      moreover have "battery_size b * target_soc b - battery_size b * ?c \<le> e"
        using over by (simp add: mult.commute)
      ultimately show ?thesis by (simp add: run_model_clipped [OF True ne over])
    qed
  qed
qed

theorem run_model_energy_within_offer_witness:
  "0 < battery_size scenario_battery
   \<and> current_soc scenario_battery - battery_losses scenario_battery
       \<le> target_soc scenario_battery
   \<and> (0::real) \<le> 20
   \<and> (\<exists>r b'. run_model scenario_battery monday_9am 20 = Inr (r, b') \<and> 0 \<le> r \<and> r \<le> 20)"
  using run_model_energy_within_offer [of scenario_battery 20 monday_9am]
  by (simp add: scenario_battery_def Battery_init_fields)

text \<open>
  C6, as stated: for any constructor inputs and any loss rate the state of charge stays
  within \<open>[0, 1]\<close> after every step. With a loss of 0.7 per step a plugged battery at
  0.5 that is offered nothing ends its first step at -0.2.
\<close>

theorem soc_drops_below_zero:
  "charging_loop (Battery_init (1/2) 1 60 default_schedule (7/10) 0) [monday_9am] [0]
     = Inr ([- (1/5)], [0], [1],
            \<lparr>current_soc = - (1/5), target_soc = 1, battery_size = 60,
               schedule = default_schedule, battery_losses = 7/10, initial_soc = 1/2\<rparr>)
   \<and> \<not> (0::real) \<le> - (1/5)"
  using monday_9am_plugged
  by (simp add: run_model_def battery_is_plugged_def calculate_losses_def
      battery_is_charging_def target_charge_achieved_def
      Let_def target_energy_stored_def current_energy_stored_def Battery_init_def)

text \<open>
  C6, amended: for every battery built by the constructor with a positive size, every
  sequence of timesteps and every sequence of offers that is at least as long, the run
  completes and the state of charge is at most 1 after every step, for any loss rate.
  It is also at least 0 after every step when the constructor's state of charge and
  target are not negative, the loss rate is not positive (0 by default) and no offer
  is negative.
\<close>

theorem soc_stays_within_bounds:
  assumes "0 < size_kwh" "length ts \<le> length es"
  shows "\<exists>soc_arr en pl b'.
           charging_loop (Battery_init cur tgt size_kwh sched losses init) ts es
             = Inr (soc_arr, en, pl, b')
           \<and> list_all (\<lambda>s. s \<le> 1) soc_arr
           \<and> (0 \<le> cur \<and> 0 \<le> tgt \<and> losses \<le> 0 \<and> list_all (\<lambda>e. 0 \<le> e) es
                \<longrightarrow> list_all (\<lambda>s. 0 \<le> s) soc_arr)"
proof -
  let ?b = "Battery_init cur tgt size_kwh sched losses init"
  have "0 < battery_size ?b" "target_soc ?b \<le> 1" "initial_soc ?b \<le> 1"
    using assms(1) by (simp_all add: Battery_init_fields)
  from charging_loop_soc_bounds [OF this(1) assms(2) this(2,3)]
  obtain soc_arr en pl b' where
    run: "charging_loop ?b ts es = Inr (soc_arr, en, pl, b')"
    and ub: "list_all (\<lambda>s. s \<le> 1) soc_arr"
    and lb: "0 \<le> current_soc ?b \<and> 0 \<le> target_soc ?b \<and> 0 \<le> initial_soc ?b
               \<and> battery_losses ?b \<le> 0 \<and> list_all (\<lambda>e. 0 \<le> e) es
             \<longrightarrow> list_all (\<lambda>s. 0 \<le> s) soc_arr"
    by (elim exE conjE)
  have lb': "0 \<le> cur \<and> 0 \<le> tgt \<and> losses \<le> 0 \<and> list_all (\<lambda>e. 0 \<le> e) es
             \<longrightarrow> list_all (\<lambda>s. 0 \<le> s) soc_arr"
    using lb by (simp add: Battery_init_fields)
  show ?thesis
    by (intro exI [of _ soc_arr] exI [of _ en] exI [of _ pl] exI [of _ b'] conjI run ub lb')
qed

theorem soc_stays_within_bounds_witness:
  "(0::real) < 60 \<and> length [monday_9am, saturday_9am] \<le> length [2, 2 :: real]
   \<and> (\<exists>soc_arr en pl b'.
           charging_loop (Battery_init (1/2) (13/20) 60 default_schedule 0 0)
               [monday_9am, saturday_9am] [2, 2]
             = Inr (soc_arr, en, pl, b')
           \<and> list_all (\<lambda>s. s \<le> 1) soc_arr
           \<and> ((0::real) \<le> 1/2 \<and> (0::real) \<le> 13/20 \<and> (0::real) \<le> 0
                \<and> list_all (\<lambda>e. 0 \<le> e) [2, 2 :: real]
                \<longrightarrow> list_all (\<lambda>s. 0 \<le> s) soc_arr))"
  using soc_stays_within_bounds [of 60 "[monday_9am, saturday_9am]" "[2, 2]"
      "1/2" "13/20" default_schedule 0 0]
  by simp

section \<open>Properties of the daily optimizer\<close>

text \<open>Called on its own, the headroom function computes the headroom of the
  specification for every slot.\<close>

lemma headroom_where:
  "(let v = (if load + m > limit then limit - load else m) in if v < 0 then 0 else v)
     = headroom m limit load"
  by (simp add: headroom_def Let_def max_def min_def)

lemma headroom_bounds:
  "0 \<le> headroom m limit load"
  "headroom m limit load \<le> max 0 m"
  "load \<le> limit \<Longrightarrow> load + headroom m limit load \<le> limit"
  by (simp_all add: headroom_def max_def min_def)

lemma charger_load_availability_profile_headroom:
  assumes "length loads = length limits"
  shows "charger_load_availability_profile loads limits m None
    = Inr (Some (map2 (\<lambda>load limit. headroom m limit load) loads limits))"
proof -
  have "map (\<lambda>v. if v < 0 then 0 else v)
          (map2 (\<lambda>load limit. if load + m > limit then limit - load else m) loads limits)
      = map2 (\<lambda>load limit. headroom m limit load) loads limits"
    by (auto simp: headroom_def max_def min_def)
  with assms show ?thesis
    by (simp add: charger_load_availability_profile_def Let_def)
qed

text \<open>The functions of the daily optimizer that read the unbound name.\<close>

lemma combine_load_profile_raises:
  "combine_load_profile site_dataf new_ev max_import_demand max_charger_output = Inl NameError"
  by (simp add: combine_load_profile_def Let_def)

lemma cumsum_energy_consumed_raises:
  "cumsum_energy_consumed sort_values site_dataf = Inl NameError"
  by (simp add: cumsum_energy_consumed_def Let_def)

lemma find_last_index_le: "find_last_index dataf e \<le> length dataf"
  by (simp add: find_last_index_def Let_def)

lemma find_last_index_pos: "dataf \<noteq> [] \<Longrightarrow> 0 < find_last_index dataf e"
  by (cases dataf) (simp_all add: find_last_index_def Let_def)

lemma mask_select_first:
  "0 < n \<Longrightarrow> n \<le> length xs \<Longrightarrow>
     mask_select (replicate n True @ replicate (length xs - n) False) xs \<noteq> []"
  by (cases n; cases xs) simp_all

lemma calculate_optimized_charging_profile_raises:
  assumes "dataf \<noteq> []"
  shows "calculate_optimized_charging_profile dataf energy_required = Inl NameError"
proof -
  let ?n = "find_last_index dataf energy_required"
  have "mask_select (replicate ?n True @ replicate (length dataf - ?n) False) dataf \<noteq> []"
    by (rule mask_select_first [OF find_last_index_pos [OF assms] find_last_index_le])
  then obtain r rs where
    "mask_select (replicate ?n True @ replicate (length dataf - ?n) False) dataf = r # rs"
    by (cases "mask_select (replicate ?n True @ replicate (length dataf - ?n) False) dataf")
      simp_all
  then show ?thesis
    by (simp add: calculate_optimized_charging_profile_def generate_filter_def Let_def)
qed

lemma calculate_optimized_charging_profile_empty:
  "calculate_optimized_charging_profile [] energy_required = Inr []"
  by (simp add: calculate_optimized_charging_profile_def generate_filter_def
      find_last_index_def Let_def)

lemma apply_new_charging_profile_raises:
  "dataf \<noteq> [] \<Longrightarrow> apply_new_charging_profile dataf energy_required = Inl NameError"
  by (simp add: apply_new_charging_profile_def calculate_optimized_charging_profile_raises
      Let_def)

lemma get_charging_profile_for_single_day_raises:
  "get_charging_profile_for_single_day sort_values day_dataf ev max_import_demand
     max_charger_load = Inl NameError"
  by (simp add: get_charging_profile_for_single_day_def combine_load_profile_raises)

text \<open>The allocation that the specification words gives out at most the requested
  energy.\<close>

lemma spec_greedy_total:
  assumes "0 < sampling_interval" "running \<le> requested" "list_all (\<lambda>h. 0 \<le> h) hs"
  shows "running
           + sum_list (map (\<lambda>h. h * sampling_interval)
                         (spec_greedy sampling_interval requested running hs))
           \<le> requested"
  using assms
proof (induction hs arbitrary: running)
  case Nil
  then show ?case by simp
next
  case (Cons h hs)
  show ?case
  proof (cases "running + h * sampling_interval \<le> requested")
    case True
    have "running + h * sampling_interval
            + sum_list (map (\<lambda>h. h * sampling_interval)
                          (spec_greedy sampling_interval requested
                             (running + h * sampling_interval) hs))
          \<le> requested"
      by (rule Cons.IH) (use Cons.prems True in simp_all)
    with True show ?thesis by (simp add: add.assoc)
  next
    case False
    have "sum_list (map (\<lambda>h. h * sampling_interval) (map (\<lambda>_. 0) hs)) = 0"
      by (induction hs) simp_all
    with False Cons.prems(1) show ?thesis by simp
  qed
qed

section \<open>Claims about the daily optimizer\<close>


text \<open>
  C2 (the code falls short of the claim): the same three half-hours, each with 7 kW of
  headroom, and a requested energy of 5 kWh. For half-hourly slots the greedy walk of
  the claim gives the best slot its 7 kW, the second the remaining deficit, 3 kW, and
  the third nothing. The code computes neither the ranking with its cumulated energy
  nor the allocation: \<open>cumsum_energy_consumed\<close> raises \<open>NameError\<close> after sorting, and
  on a ranked frame the loop of \<open>calculate_optimized_charging_profile\<close> raises it in
  its first iteration, and \<open>apply_new_charging_profile\<close> with it.
\<close>

theorem greedy_allocation_raises:
  "cumsum_energy_consumed (sort_key target) ranked_day = Inl NameError
   \<and> find_last_index ranked_frame 5 = 2
   \<and> calculate_optimized_charging_profile ranked_frame 5 = Inl NameError
   \<and> apply_new_charging_profile ranked_frame 5 = Inl NameError
   \<and> spec_greedy (1/2) 5 0 (map charger_load_profile ranked_frame) = [7, 3, 0]"
  by (simp add: cumsum_energy_consumed_def calculate_optimized_charging_profile_def
      apply_new_charging_profile_def generate_filter_def find_last_index_def
      ranked_frame_def Let_def)

section \<open>Properties of the object store\<close>

text \<open>A deep copy allocates new objects and leaves the allocated ones as they are; the
  copies refer to copies only.\<close>

lemma refs_within_simps [simp]:
  "refs_within lo hi []"
  "refs_within lo hi (a # as) \<longleftrightarrow> lo \<le> a \<and> a < hi \<and> refs_within lo hi as"
  by (simp_all add: refs_within_def)

lemma refs_within_mono: "refs_within lo hi as \<Longrightarrow> hi \<le> hi' \<Longrightarrow> refs_within lo hi' as"
  by (induction as) auto

lemma refs_within_map_of:
  "refs_within lo hi (map snd memo) \<Longrightarrow> map_of memo a = Some a' \<Longrightarrow> lo \<le> a' \<and> a' < hi"
  by (induction memo) (auto split: if_splits)

lemma deepcopy_evs_frame:
  assumes "deepcopy_evs s memo as = (s', memo', as')"
    and "elo \<le> ev_top s" and "refs_within elo (ev_top s) (map snd memo)"
  shows "ev_top s \<le> ev_top s' \<and> charger_store s' = charger_store s
       \<and> charger_top s' = charger_top s
       \<and> (\<forall>b < ev_top s. ev_store s' b = ev_store s b)
       \<and> refs_within elo (ev_top s') (map snd memo')
       \<and> refs_within elo (ev_top s') as'"
  using assms
proof (induction s memo as arbitrary: s' memo' as' rule: deepcopy_evs.induct)
  case (1 s memo)
  then show ?case by simp
next
  case (2 s memo a as)
  show ?case
  proof (cases "map_of memo a")
    case (Some a')
    obtain s2 memo2 as2 where rec: "deepcopy_evs s memo as = (s2, memo2, as2)"
      by (cases "deepcopy_evs s memo as")
    have res: "s' = s2" "memo' = memo2" "as' = a' # as2"
      using "2.prems"(1) Some rec by simp_all
    have ih: "ev_top s \<le> ev_top s2 \<and> charger_store s2 = charger_store s
       \<and> charger_top s2 = charger_top s
       \<and> (\<forall>b < ev_top s. ev_store s2 b = ev_store s b)
       \<and> refs_within elo (ev_top s2) (map snd memo2)
       \<and> refs_within elo (ev_top s2) as2"
      by (rule "2.IH"(2) [OF Some rec "2.prems"(2,3)])
    have a': "elo \<le> a' \<and> a' < ev_top s"
      by (rule refs_within_map_of [OF "2.prems"(3) Some])
    show ?thesis using ih a' unfolding res by auto
  next
    case None
    let ?a' = "ev_top s"
    let ?s1 = "s\<lparr>ev_store := (ev_store s)(?a' := ev_store s a), ev_top := Suc ?a'\<rparr>"
    obtain s2 memo2 as2 where rec: "deepcopy_evs ?s1 ((a, ?a') # memo) as = (s2, memo2, as2)"
      by (cases "deepcopy_evs ?s1 ((a, ?a') # memo) as")
    have res: "s' = s2" "memo' = memo2" "as' = ?a' # as2"
      using "2.prems"(1) None rec by (simp_all add: Let_def)
    have p1: "elo \<le> ev_top ?s1" using "2.prems"(2) by simp
    have p2: "refs_within elo (ev_top ?s1) (map snd ((a, ?a') # memo))"
      using "2.prems"(2,3) refs_within_mono [of elo "ev_top s" "map snd memo" "Suc (ev_top s)"]
      by simp
    have ih: "ev_top ?s1 \<le> ev_top s2 \<and> charger_store s2 = charger_store ?s1
       \<and> charger_top s2 = charger_top ?s1
       \<and> (\<forall>b < ev_top ?s1. ev_store s2 b = ev_store ?s1 b)
       \<and> refs_within elo (ev_top s2) (map snd memo2)
       \<and> refs_within elo (ev_top s2) as2"
      by (rule "2.IH"(1) [OF None refl refl rec p1 p2])
    show ?thesis using ih "2.prems"(2) unfolding res by auto
  qed
qed

lemma deepcopy_chargers_frame:
  assumes "deepcopy_chargers s ev_memo memo d = (s', ev_memo', memo', d')"
    and "elo \<le> ev_top s" and "clo \<le> charger_top s"
    and "refs_within elo (ev_top s) (map snd ev_memo)"
    and "refs_within clo (charger_top s) (map snd memo)"
    and "copies_closed elo clo s"
  shows "ev_top s \<le> ev_top s' \<and> charger_top s \<le> charger_top s'
       \<and> (\<forall>b < ev_top s. ev_store s' b = ev_store s b)
       \<and> (\<forall>c < charger_top s. charger_store s' c = charger_store s c)
       \<and> copies_closed elo clo s'
       \<and> refs_within clo (charger_top s') (map snd d')"
  using assms
proof (induction s ev_memo memo d arbitrary: s' ev_memo' memo' d'
        rule: deepcopy_chargers.induct)
  case (1 s ev_memo memo)
  then show ?case by simp
next
  case (2 s ev_memo memo key a rest)
  show ?case
  proof (cases "map_of memo a")
    case (Some a')
    obtain s2 em2 m2 r2 where rec: "deepcopy_chargers s ev_memo memo rest = (s2, em2, m2, r2)"
      by (cases "deepcopy_chargers s ev_memo memo rest")
    have res: "s' = s2" "d' = (key, a') # r2"
      using "2.prems"(1) Some rec by simp_all
    have ih: "ev_top s \<le> ev_top s2 \<and> charger_top s \<le> charger_top s2
       \<and> (\<forall>b < ev_top s. ev_store s2 b = ev_store s b)
       \<and> (\<forall>c < charger_top s. charger_store s2 c = charger_store s c)
       \<and> copies_closed elo clo s2
       \<and> refs_within clo (charger_top s2) (map snd r2)"
      by (rule "2.IH"(2) [OF Some rec "2.prems"(2,3,4,5,6)])
    have a': "clo \<le> a' \<and> a' < charger_top s"
      by (rule refs_within_map_of [OF "2.prems"(5) Some])
    show ?thesis using ih a' unfolding res by auto
  next
    case None
    obtain s1 em1 evs' where evs: "deepcopy_evs s ev_memo (ev_list (charger_store s a))
        = (s1, em1, evs')"
      by (cases "deepcopy_evs s ev_memo (ev_list (charger_store s a))")
    from deepcopy_evs_frame [OF evs "2.prems"(2,4)]
    have e1: "ev_top s \<le> ev_top s1" and e2: "charger_store s1 = charger_store s"
      and e3: "charger_top s1 = charger_top s"
      and e4: "\<forall>b < ev_top s. ev_store s1 b = ev_store s b"
      and e5: "refs_within elo (ev_top s1) (map snd em1)"
      and e6: "refs_within elo (ev_top s1) evs'"
      by simp_all
    let ?a' = "charger_top s1"
    let ?s2 = "s1\<lparr>charger_store :=
                   (charger_store s1)(?a' := (charger_store s1 a)\<lparr>ev_list := evs'\<rparr>),
                 charger_top := Suc ?a'\<rparr>"
    obtain s3 em3 m3 r3 where rec:
      "deepcopy_chargers ?s2 em1 ((a, ?a') # memo) rest = (s3, em3, m3, r3)"
      by (cases "deepcopy_chargers ?s2 em1 ((a, ?a') # memo) rest")
    have res: "s' = s3" "d' = (key, ?a') # r3"
      using "2.prems"(1) None evs rec by (simp_all add: Let_def)
    have p2: "elo \<le> ev_top ?s2" using "2.prems"(2) e1 by simp
    have p3: "clo \<le> charger_top ?s2" using "2.prems"(3) e3 by simp
    have p4: "refs_within elo (ev_top ?s2) (map snd em1)" using e5 by simp
    have p5: "refs_within clo (charger_top ?s2) (map snd ((a, ?a') # memo))"
      using "2.prems"(3,5) e3
        refs_within_mono [of clo "charger_top s" "map snd memo" "Suc (charger_top s)"]
      by simp
    have p6: "copies_closed elo clo ?s2"
      unfolding copies_closed_def
    proof (intro allI impI)
      fix c assume c: "clo \<le> c \<and> c < charger_top ?s2"
      show "refs_within elo (ev_top ?s2) (ev_list (charger_store ?s2 c))"
      proof (cases "c = ?a'")
        case True
        then show ?thesis using e6 by simp
      next
        case False
        then have "c < charger_top s" using c e3 by simp
        then have "refs_within elo (ev_top s) (ev_list (charger_store s c))"
          using "2.prems"(6) c by (simp add: copies_closed_def)
        then have "refs_within elo (ev_top s1) (ev_list (charger_store s c))"
          by (rule refs_within_mono) (rule e1)
        then show ?thesis using False e2 by simp
      qed
    qed
    have ih: "ev_top ?s2 \<le> ev_top s3 \<and> charger_top ?s2 \<le> charger_top s3
       \<and> (\<forall>b < ev_top ?s2. ev_store s3 b = ev_store ?s2 b)
       \<and> (\<forall>c < charger_top ?s2. charger_store s3 c = charger_store ?s2 c)
       \<and> copies_closed elo clo s3
       \<and> refs_within clo (charger_top s3) (map snd r3)"
      by (rule "2.IH"(1) [OF None evs [symmetric] refl refl refl rec p2 p3 p4 p5 p6])
    have c1: "ev_top s \<le> ev_top s3" using ih e1 by simp
    have c2: "charger_top s \<le> charger_top s3" using ih e3 by simp
    have c3: "\<forall>b < ev_top s. ev_store s3 b = ev_store s b"
    proof (intro allI impI)
      fix b assume b: "b < ev_top s"
      then have "b < ev_top ?s2" using e1 by simp
      then have "ev_store s3 b = ev_store ?s2 b" using ih by blast
      then show "ev_store s3 b = ev_store s b" using e4 b by simp
    qed
    have c4: "\<forall>c < charger_top s. charger_store s3 c = charger_store s c"
    proof (intro allI impI)
      fix c assume c: "c < charger_top s"
      then have "c < charger_top ?s2" using e3 by simp
      then have "charger_store s3 c = charger_store ?s2 c" using ih by blast
      then show "charger_store s3 c = charger_store s c" using e2 e3 c by simp
    qed
    have c6: "refs_within clo (charger_top s3) (map snd ((key, ?a') # r3))"
      using ih "2.prems"(3) e3 by simp
    show ?thesis unfolding res using c1 c2 c3 c4 c6 ih by blast
  qed
qed

lemma deepcopy_frame:
  assumes "deepcopy s d = (s1, copy)"
  shows "ev_top s \<le> ev_top s1 \<and> charger_top s \<le> charger_top s1
       \<and> (\<forall>b < ev_top s. ev_store s1 b = ev_store s b)
       \<and> (\<forall>c < charger_top s. charger_store s1 c = charger_store s c)
       \<and> copies_closed (ev_top s) (charger_top s) s1
       \<and> refs_within (charger_top s) (charger_top s1) (map snd copy)"
proof -
  from assms obtain em m where
    dc: "deepcopy_chargers s [] [] d = (s1, em, m, copy)"
    by (auto simp: deepcopy_def split: prod.splits)
  have closed: "copies_closed (ev_top s) (charger_top s) s"
    unfolding copies_closed_def by (intro allI impI) linarith
  show ?thesis
    by (rule deepcopy_chargers_frame [OF dc]) (simp_all add: closed)
qed

lemma same_objects_below:
  assumes "roster_allocated s d"
    "\<forall>b < ev_top s. ev_store s' b = ev_store s b"
    "\<forall>c < charger_top s. charger_store s' c = charger_store s c"
  shows "same_objects s s' d"
  using assms unfolding roster_allocated_def same_objects_def list_all_iff by blast

lemma refs_closed_fresh:
  assumes "refs_within clo (charger_top s') d" "copies_closed elo clo s'"
  shows "list_all (\<lambda>c. clo \<le> c \<and> c < charger_top s'
                 \<and> list_all (\<lambda>b. elo \<le> b \<and> b < ev_top s') (ev_list (charger_store s' c))) d"
  using assms unfolding refs_within_def copies_closed_def list_all_iff by blast

lemma deepcopy_fresh:
  assumes "deepcopy s d = (s1, copy)"
  shows "fresh_objects s s1 copy"
proof -
  from deepcopy_frame [OF assms]
  have r: "refs_within (charger_top s) (charger_top s1) (map snd copy)"
    and cl: "copies_closed (ev_top s) (charger_top s) s1"
    by simp_all
  show ?thesis unfolding fresh_objects_def by (rule refs_closed_fresh [OF r cl])
qed

text \<open>What a run of one strategy leaves: the store as it was when the series of the
  strategy is not supplied, and otherwise the store with the deep copy of the roster
  and the exception of the optimizer. The base strategy always runs, and so every run
  of all strategies ends with that exception.\<close>

lemma run_optimizer_raises:
  "run_optimizer s dict_chargers site_df max_import_demand = Inl NameError"
  by (simp add: run_optimizer_def Let_def)

lemma run_control_method_skip:
  "\<not> profile_supplied self ct \<Longrightarrow> run_control_method s self ct = (s, Inr None)"
  by (cases ct) (simp_all add: run_control_method_def)

lemma run_control_method_run:
  assumes "profile_supplied self ct"
  shows "\<exists>err. run_control_method s self ct
                 = (fst (deepcopy s (dict_of_chargers self)), Inl err)"
proof -
  from assms have gate:
    "\<not> ((carbon_dataf self = None \<and> ct = EMISSION_OPTIMIZER)
        \<or> (price_dataf self = None \<and> ct = PRICE_OPTIMIZER)
        \<or> (pv_dataf self = None \<and> ct = PV_OPTIMIZER))"
    by (cases ct) simp_all
  show ?thesis
    unfolding run_control_method_def
    by (simp only: gate if_False)
      (simp add: run_optimizer_raises split: prod.splits sum.splits)
qed

lemma run_control_method_base:
  "run_control_method s self BASE_OPTIMIZER
     = (fst (deepcopy s (dict_of_chargers self)), Inl NameError)"
  by (simp add: run_control_method_def run_optimizer_raises optimizer_selector_def
      split: prod.splits)

lemma run_control_method_frame:
  assumes "run_control_method s self ct = (s', outcome)"
  shows "ev_top s \<le> ev_top s' \<and> charger_top s \<le> charger_top s'
       \<and> (\<forall>b < ev_top s. ev_store s' b = ev_store s b)
       \<and> (\<forall>c < charger_top s. charger_store s' c = charger_store s c)"
proof (cases "profile_supplied self ct")
  case False
  from run_control_method_skip [OF False, of s] assms have "s' = s" by simp
  then show ?thesis by simp
next
  case True
  from run_control_method_run [OF True, of s] assms
  have s': "s' = fst (deepcopy s (dict_of_chargers self))" by auto
  obtain s1 copy where dc: "deepcopy s (dict_of_chargers self) = (s1, copy)"
    by (cases "deepcopy s (dict_of_chargers self)")
  from deepcopy_frame [OF dc] show ?thesis unfolding s' dc by simp
qed

lemma run_all_control_methods_raises:
  "run_all_control_methods s self
     = (fst (deepcopy s (dict_of_chargers self)), Inl NameError)"
  by (simp add: run_all_control_methods_def run_control_method_base)

lemma demo_deepcopy:
  "\<exists>s1. deepcopy demo_store (dict_of_chargers demo_sites) = (s1, [(''Charger_1'', 1)])
     \<and> ev_top s1 = 2 \<and> charger_top s1 = 2
     \<and> ev_store s1 0 = demo_ev \<and> charger_store s1 0 = demo_charger
     \<and> ev_store s1 1 = demo_ev \<and> charger_store s1 1 = demo_charger\<lparr>ev_list := [1]\<rparr>"
  by (simp add: deepcopy_def demo_store_def demo_sites_def demo_charger_def Let_def)

section \<open>Claims about the strategy runner\<close>

text \<open>
  C8: a run of one strategy leaves every charger and every vehicle of the roster of
  the \<open>Optimized_Sites\<close> as it was, with its battery and its recorder, whether the
  run returns or raises; so does a second run after it, of the same or of another
  strategy, and the second run also leaves every object as it was that the first run
  had allocated. When the series of the strategy is supplied, the store that the run
  leaves is the one with the deep copy of the roster, whose chargers and vehicles are
  all objects allocated by the run. As the optimizer raises before it simulates
  anything, a run writes to no object at all, the copies included.
\<close>

theorem strategies_share_no_state:
  assumes run1: "run_control_method s self ct1 = (s1, outcome1)"
    and run2: "run_control_method s1 self ct2 = (s2, outcome2)"
    and alloc: "roster_allocated s (dict_of_chargers self)"
  shows "same_objects s s1 (dict_of_chargers self)
       \<and> same_objects s s2 (dict_of_chargers self)
       \<and> (\<forall>b. ev_top s \<le> b \<and> b < ev_top s1 \<longrightarrow> ev_store s2 b = ev_store s1 b)
       \<and> (\<forall>c. charger_top s \<le> c \<and> c < charger_top s1
              \<longrightarrow> charger_store s2 c = charger_store s1 c)
       \<and> (profile_supplied self ct1 \<longrightarrow>
             (\<exists>copy. deepcopy s (dict_of_chargers self) = (s1, copy)
                     \<and> fresh_objects s s1 copy))"
proof -
  from run_control_method_frame [OF run1]
  have t1: "ev_top s \<le> ev_top s1" and t2: "charger_top s \<le> charger_top s1"
    and f1: "\<forall>b < ev_top s. ev_store s1 b = ev_store s b"
    and f2: "\<forall>c < charger_top s. charger_store s1 c = charger_store s c"
    by simp_all
  from run_control_method_frame [OF run2]
  have g1: "\<forall>b < ev_top s1. ev_store s2 b = ev_store s1 b"
    and g2: "\<forall>c < charger_top s1. charger_store s2 c = charger_store s1 c"
    by simp_all
  have a: "same_objects s s1 (dict_of_chargers self)"
    by (rule same_objects_below [OF alloc f1 f2])
  have h1: "\<forall>b < ev_top s. ev_store s2 b = ev_store s b"
    using t1 f1 g1 by (metis order_less_le_trans)
  have h2: "\<forall>c < charger_top s. charger_store s2 c = charger_store s c"
    using t2 f2 g2 by (metis order_less_le_trans)
  have b: "same_objects s s2 (dict_of_chargers self)"
    by (rule same_objects_below [OF alloc h1 h2])
  have c: "\<exists>copy. deepcopy s (dict_of_chargers self) = (s1, copy) \<and> fresh_objects s s1 copy"
    if sup: "profile_supplied self ct1"
  proof -
    from run_control_method_run [OF sup, of s] run1
    have s1: "s1 = fst (deepcopy s (dict_of_chargers self))" by auto
    obtain s0 copy where dc: "deepcopy s (dict_of_chargers self) = (s0, copy)"
      by (cases "deepcopy s (dict_of_chargers self)")
    with s1 have dc1: "deepcopy s (dict_of_chargers self) = (s1, copy)" by simp
    from deepcopy_fresh [OF dc1] dc1 show ?thesis by blast
  qed
  from a b c g1 g2 show ?thesis by blast
qed

theorem strategies_share_no_state_witness:
  "\<exists>s1 s2.
      run_control_method demo_store demo_sites BASE_OPTIMIZER = (s1, Inl NameError)
    \<and> run_control_method s1 demo_sites BASE_OPTIMIZER = (s2, Inl NameError)
    \<and> roster_allocated demo_store (dict_of_chargers demo_sites)
    \<and> same_objects demo_store s1 (dict_of_chargers demo_sites)
    \<and> same_objects demo_store s2 (dict_of_chargers demo_sites)
    \<and> ev_top demo_store = 1 \<and> ev_top s1 = 2
    \<and> charger_top demo_store = 1 \<and> charger_top s1 = 2
    \<and> ev_store s2 1 = ev_store s1 1
    \<and> charger_store s2 1 = charger_store s1 1
    \<and> deepcopy demo_store (dict_of_chargers demo_sites) = (s1, [(''Charger_1'', 1)])
    \<and> fresh_objects demo_store s1 [(''Charger_1'', 1)]"
proof -
  obtain s1 where
    dc: "deepcopy demo_store (dict_of_chargers demo_sites) = (s1, [(''Charger_1'', 1)])"
    and tops: "ev_top s1 = 2" "charger_top s1 = 2"
    using demo_deepcopy by (elim exE conjE)
  have run1: "run_control_method demo_store demo_sites BASE_OPTIMIZER = (s1, Inl NameError)"
    by (simp add: run_control_method_base dc)
  obtain s2 where
    run2: "run_control_method s1 demo_sites BASE_OPTIMIZER = (s2, Inl NameError)"
    by (simp add: run_control_method_base)
  have alloc: "roster_allocated demo_store (dict_of_chargers demo_sites)"
    by (simp add: roster_allocated_def demo_store_def demo_sites_def demo_charger_def)
  have base: "profile_supplied demo_sites BASE_OPTIMIZER" by simp
  have top0: "ev_top demo_store = 1" "charger_top demo_store = 1"
    by (simp_all add: demo_store_def)
  note inst = strategies_share_no_state [OF run1 run2 alloc]
  from inst have so1: "same_objects demo_store s1 (dict_of_chargers demo_sites)"
    and so2: "same_objects demo_store s2 (dict_of_chargers demo_sites)"
    by simp_all
  from inst top0 tops have e: "ev_store s2 1 = ev_store s1 1"
    and c: "charger_store s2 1 = charger_store s1 1"
    by simp_all
  from inst base dc have fr: "fresh_objects demo_store s1 [(''Charger_1'', 1)]"
    by simp
  show ?thesis
    by (intro exI [of _ s1] exI [of _ s2] conjI run1 run2 alloc so1 so2 top0 tops e c dc fr)
qed

text \<open>
  C9 (the code falls short of the claim): the site of one charger and one vehicle with
  no carbon, price or PV series. For the emission, price and PV strategies
  \<open>run_control_method\<close> returns \<open>None\<close> and leaves the store as it is, as the claim
  says. The base strategy needs no series and is always run, and its run raises
  \<open>NameError\<close> in \<open>run_optimizer\<close>; it is the first call of
  \<open>run_all_control_methods\<close>, which therefore raises too and returns no mapping.
\<close>

theorem base_strategy_raises_in_every_run:
  "snd (run_all_control_methods demo_store demo_sites) = Inl NameError
   \<and> snd (run_control_method demo_store demo_sites BASE_OPTIMIZER) = Inl NameError
   \<and> run_control_method demo_store demo_sites EMISSION_OPTIMIZER = (demo_store, Inr None)
   \<and> run_control_method demo_store demo_sites PRICE_OPTIMIZER = (demo_store, Inr None)
   \<and> run_control_method demo_store demo_sites PV_OPTIMIZER = (demo_store, Inr None)"
  by (simp add: run_all_control_methods_raises run_control_method_base
      run_control_method_skip demo_sites_def)

section \<open>Properties of the recorder\<close>

text \<open>Within the 64-bit range the conversion drops the fractional part: it rounds
  down from 0 on and up below 0.\<close>

lemma astype_int64_trunc:
  assumes "- (2 ^ 63) < v" "v < 2 ^ 63"
  shows "astype_int64 v = (if 0 \<le> v then \<lfloor>v\<rfloor> else \<lceil>v\<rceil>)"
proof (cases "0 \<le> v")
  case True
  have "0 \<le> \<lfloor>v\<rfloor>" using True by simp
  moreover have "\<lfloor>v\<rfloor> < 2 ^ 63" using assms(2) by (simp add: floor_less_iff)
  ultimately show ?thesis using True by (simp add: astype_int64_def Let_def)
next
  case False
  have "\<lceil>v\<rceil> \<le> 0" using False by (simp add: ceiling_le_iff)
  moreover have "- (2 ^ 63) < \<lceil>v\<rceil>" using assms(1) by (simp add: less_ceiling_iff)
  ultimately show ?thesis using False by (simp add: astype_int64_def Let_def)
qed

lemma astype_int64_small: "- 1 < v \<Longrightarrow> v < 1 \<Longrightarrow> astype_int64 v = 0"
proof -
  assume a: "- 1 < v" "v < 1"
  have "0 \<le> v \<Longrightarrow> \<lfloor>v\<rfloor> = 0" using a by (simp add: floor_eq_iff)
  moreover have "\<not> 0 \<le> v \<Longrightarrow> \<lceil>v\<rceil> = 0" using a by (simp add: ceiling_eq_iff)
  ultimately show ?thesis by (simp add: astype_int64_def Let_def)
qed

lemma loc_assign_other: "t \<notin> set ts \<Longrightarrow> loc_assign col ts vs t = col t"
  by (induction col ts vs rule: loc_assign.induct) simp_all

lemma loc_assign_nth:
  "distinct ts \<Longrightarrow> length vs = length ts \<Longrightarrow> i < length ts \<Longrightarrow>
     loc_assign col ts vs (ts ! i) = vs ! i"
proof (induction col ts vs arbitrary: i rule: loc_assign.induct)
  case (1 col t ts v vs)
  show ?case
  proof (cases i)
    case 0
    then show ?thesis using "1.prems"(1) by (simp add: loc_assign_other)
  next
    case (Suc k)
    have "loc_assign (col(t := v)) ts vs (ts ! k) = vs ! k"
      by (rule "1.IH") (use "1.prems" Suc in simp_all)
    then show ?thesis using Suc by simp
  qed
qed simp_all

lemma charging_loop_lengths:
  "charging_loop b ts es = Inr (soc_arr, en, pl, b') \<Longrightarrow>
     length soc_arr = length ts \<and> length en = length ts \<and> length pl = length ts"
proof (induction b ts es arbitrary: soc_arr en pl b' rule: charging_loop.induct)
  case (3 b t ts e es)
  then show ?case by (auto split: sum.splits prod.splits)
qed simp_all

lemma record_batch_data_cell:
  assumes "record_batch_data r idx vals col_name = Inr r'" "distinct idx" "i < length idx"
  shows "recorded_data r' col_name (idx ! i) = astype_int64 (vals ! i)"
proof -
  have len: "length vals = length idx" and
    r': "r' = r\<lparr>recorded_data := (recorded_data r)(col_name :=
                 loc_assign (recorded_data r col_name) idx (map astype_int64 vals))\<rparr>"
    using assms(1) by (auto simp: record_batch_data_def split: if_splits)
  show ?thesis using loc_assign_nth [OF assms(2) _ assms(3), of "map astype_int64 vals"] len assms(3)
    by (simp add: r')
qed

lemma record_batch_data_other_column:
  assumes "record_batch_data r idx vals col_name = Inr r'" "c \<noteq> col_name"
  shows "recorded_data r' c = recorded_data r c"
  using assms by (auto simp: record_batch_data_def split: if_splits)

lemma EV_charging_profile_cells:
  assumes run: "EV_charging_profile ev ts outs = Inr (res, ev')"
    and loop: "charging_loop (battery ev) ts outs = Inr (soc_arr, en, pl, b')"
    and "distinct ts" "j < length ts"
  shows "recorded_data (data_recorder ev') ''SOC'' (ts ! j) = astype_int64 (soc_arr ! j)"
    and "recorded_data (data_recorder ev') ''ENERGY_INPUT'' (ts ! j) = astype_int64 (en ! j)"
proof -
  from run loop obtain r1 r2 r3 where
    w1: "record_batch_data (data_recorder ev) ts soc_arr ''SOC'' = Inr r1"
    and w2: "record_batch_data r1 ts en ''ENERGY_INPUT'' = Inr r2"
    and w3: "record_batch_data r2 ts pl ''PLUGGED'' = Inr r3"
    and ev': "ev' = ev\<lparr>battery := b', data_recorder := r3\<rparr>"
    by (auto simp: EV_charging_profile_def split: sum.splits)
  have "recorded_data r3 ''SOC'' = recorded_data r2 ''SOC''"
    by (rule record_batch_data_other_column [OF w3]) simp
  also have "\<dots> = recorded_data r1 ''SOC''"
    by (rule record_batch_data_other_column [OF w2]) simp
  finally show "recorded_data (data_recorder ev') ''SOC'' (ts ! j) = astype_int64 (soc_arr ! j)"
    using record_batch_data_cell [OF w1 assms(3,4)] by (simp add: ev')
  have "recorded_data r3 ''ENERGY_INPUT'' = recorded_data r2 ''ENERGY_INPUT''"
    by (rule record_batch_data_other_column [OF w3]) simp
  then show "recorded_data (data_recorder ev') ''ENERGY_INPUT'' (ts ! j) = astype_int64 (en ! j)"
    using record_batch_data_cell [OF w2 assms(3,4)] by (simp add: ev')
qed

lemma scenario_loop:
  "charging_loop scenario_battery [monday_9am] [37/10]
     = Inr ([337/600], [37/10], [1], scenario_battery\<lparr>current_soc := 337/600\<rparr>)"
  using monday_9am_plugged
  by (simp add: run_model_def battery_is_plugged_def calculate_losses_def
      battery_is_charging_def target_charge_achieved_def
      Let_def scenario_battery_def Battery_init_def)

section \<open>Claims about the recorder\<close>

text \<open>
  C10: \<open>record_batch_data\<close> stores every value converted to a 64-bit integer. Within
  the range of 64-bit integers the cell written for the \<open>i\<close>-th label holds the
  \<open>i\<close>-th value without its fractional part: rounded down when the value is not
  negative, rounded up when it is. After \<open>EV.charging_profile\<close> the recorded state of
  charge and the recorded energy input of step \<open>j\<close> are therefore the whole parts of
  the battery's state of charge after that step and of the energy it consumed in it,
  and the recorded state of charge is 0 whenever the state of charge is strictly below
  1 (and above -1). The labels written are distinct timestamps.
\<close>

theorem recorder_stores_truncated_values:
  "(record_batch_data r idx vals col_name = Inr r' \<and> distinct idx \<and> i < length idx
      \<and> - (2 ^ 63) < vals ! i \<and> vals ! i < 2 ^ 63
      \<longrightarrow> recorded_data r' col_name (idx ! i)
            = (if 0 \<le> vals ! i then \<lfloor>vals ! i\<rfloor> else \<lceil>vals ! i\<rceil>))
   \<and> (EV_charging_profile ev ts outs = Inr (res, ev')
        \<and> charging_loop (battery ev) ts outs = Inr (soc_arr, en, pl, b')
        \<and> distinct ts \<and> j < length ts
      \<longrightarrow> (- (2 ^ 63) < soc_arr ! j \<and> soc_arr ! j < 2 ^ 63
             \<longrightarrow> recorded_data (data_recorder ev') ''SOC'' (ts ! j)
                   = (if 0 \<le> soc_arr ! j then \<lfloor>soc_arr ! j\<rfloor> else \<lceil>soc_arr ! j\<rceil>))
          \<and> (- 1 < soc_arr ! j \<and> soc_arr ! j < 1
               \<longrightarrow> recorded_data (data_recorder ev') ''SOC'' (ts ! j) = 0)
          \<and> (- (2 ^ 63) < en ! j \<and> en ! j < 2 ^ 63
             \<longrightarrow> recorded_data (data_recorder ev') ''ENERGY_INPUT'' (ts ! j)
                   = (if 0 \<le> en ! j then \<lfloor>en ! j\<rfloor> else \<lceil>en ! j\<rceil>)))"
proof -
  have cell: "recorded_data r' col_name (idx ! i)
                = (if 0 \<le> vals ! i then \<lfloor>vals ! i\<rfloor> else \<lceil>vals ! i\<rceil>)"
    if "record_batch_data r idx vals col_name = Inr r'" "distinct idx" "i < length idx"
      "- (2 ^ 63) < vals ! i" "vals ! i < 2 ^ 63"
    using record_batch_data_cell [OF that(1-3)] astype_int64_trunc [OF that(4,5)] by simp
  have soc: "recorded_data (data_recorder ev') ''SOC'' (ts ! j) = astype_int64 (soc_arr ! j)"
    and energy: "recorded_data (data_recorder ev') ''ENERGY_INPUT'' (ts ! j)
                   = astype_int64 (en ! j)"
    if "EV_charging_profile ev ts outs = Inr (res, ev')"
      "charging_loop (battery ev) ts outs = Inr (soc_arr, en, pl, b')"
      "distinct ts" "j < length ts"
    using EV_charging_profile_cells [OF that] by simp_all
  show ?thesis
    using cell soc energy astype_int64_small [of "soc_arr ! j"]
      astype_int64_trunc [of "soc_arr ! j"] astype_int64_trunc [of "en ! j"]
    by (intro conjI impI; elim conjE) simp_all
qed

theorem recorder_stores_truncated_values_witness:
  "\<exists>r' res ev'.
     record_batch_data (data_recorder scenario_ev) [monday_9am] [37/10] ''ENERGY_INPUT'' = Inr r'
     \<and> recorded_data r' ''ENERGY_INPUT'' monday_9am = 3
     \<and> EV_charging_profile scenario_ev [monday_9am] [37/10] = Inr (res, ev')
     \<and> charging_loop (battery scenario_ev) [monday_9am] [37/10]
          = Inr ([337/600], [37/10], [1], scenario_battery\<lparr>current_soc := 337/600\<rparr>)
     \<and> recorded_data (data_recorder ev') ''SOC'' monday_9am = 0
     \<and> recorded_data (data_recorder ev') ''ENERGY_INPUT'' monday_9am = 3"
proof -
  have loop: "charging_loop (battery scenario_ev) [monday_9am] [37/10]
      = Inr ([337/600], [37/10], [1], scenario_battery\<lparr>current_soc := 337/600\<rparr>)"
    by (simp add: scenario_ev_def scenario_loop del: charging_loop.simps)
  have dr: "data_recorder scenario_ev
      = TimeserieRecorder_init [monday_9am, saturday_9am]
          [''TIMESTEP'', ''SOC'', ''ENERGY_INPUT'', ''PLUGGED'']"
    by (simp add: scenario_ev_def)
  obtain r' where w: "record_batch_data (data_recorder scenario_ev) [monday_9am] [37/10]
                        ''ENERGY_INPUT'' = Inr r'"
    by (simp add: record_batch_data_def scenario_ev_def TimeserieRecorder_init_def)
  obtain res ev' where run: "EV_charging_profile scenario_ev [monday_9am] [37/10] = Inr (res, ev')"
    by (simp add: EV_charging_profile_def loop dr record_batch_data_def
        TimeserieRecorder_init_def del: charging_loop.simps)
  have fl: "\<lfloor>37 / 10 :: real\<rfloor> = 3" by (simp add: floor_eq_iff)
  note inst = recorder_stores_truncated_values
    [of "data_recorder scenario_ev" "[monday_9am]" "[37/10]" "''ENERGY_INPUT''" r' 0
        scenario_ev "[monday_9am]" "[37/10]" res ev' "[337/600]" "[37/10]" "[1]"
        "scenario_battery\<lparr>current_soc := 337/600\<rparr>" 0]
  have c1: "recorded_data r' ''ENERGY_INPUT'' monday_9am = 3"
    using inst w fl by simp
  have c2: "recorded_data (data_recorder ev') ''SOC'' monday_9am = 0"
    using inst run loop by simp
  have c3: "recorded_data (data_recorder ev') ''ENERGY_INPUT'' monday_9am = 3"
    using inst run loop fl by simp
  show ?thesis
    by (intro exI [of _ r'] exI [of _ res] exI [of _ ev'] conjI w c1 run loop c2 c3)
qed

end
